theory Spec2Isabelle
  imports Main "HOL-Library.Sublist"
begin

section \<open>JavaScript values\<close>

text \<open>
  The values a \<^verbatim>\<open>retryable\<close> property takes in this program: absent
  (\<^verbatim>\<open>undefined\<close>), a boolean, or a string (the vision client stores the
  value of \<^verbatim>\<open>err.message && ...\<close> there, which is the empty string when the
  message is empty).
\<close>

datatype jsv = Undefined | JBool bool | JStr string

text \<open>
  A thrown object with the three properties the program reads. \<^verbatim>\<open>code\<close> and
  \<^verbatim>\<open>message\<close> are strings when present (\<^verbatim>\<open>Error & { code?: string }\<close>).
\<close>

record js_error =
  err_code :: "string option"
  err_message :: "string option"
  err_retryable :: jsv

text \<open>
  What a rejected promise carries: an object, or a falsy value (\<^verbatim>\<open>undefined\<close>,
  \<^verbatim>\<open>null\<close>), which is what \<^verbatim>\<open>throw lastError\<close> throws when no attempt was made.
\<close>

datatype thrown = Falsy | Thrown js_error

text \<open>\<^verbatim>\<open>s || d\<close> for an optional string: absent and empty are both falsy.\<close>

definition or_default :: "string option \<Rightarrow> string \<Rightarrow> string" where
  "or_default s d = (case s of None \<Rightarrow> d | Some v \<Rightarrow> if v = [] then d else v)"

text \<open>\<^verbatim>\<open>s.includes(sub)\<close>: \<open>sub\<close> occurs in \<open>s\<close> as a contiguous substring.\<close>

fun str_includes :: "string \<Rightarrow> string \<Rightarrow> bool" where
  "str_includes [] sub = (sub = [])"
| "str_includes (c # cs) sub = (prefix sub (c # cs) \<or> str_includes cs sub)"

text \<open>
  How a template string prints a whole number: in decimal, the digits collected from
  the last one to the first.
\<close>

definition digit :: "nat \<Rightarrow> char" where
  "digit d = ''0123456789'' ! d"

fun decimal :: "nat \<Rightarrow> string \<Rightarrow> string" where
  "decimal n acc =
     (if n < 10 then digit n # acc else decimal (n div 10) (digit (n mod 10) # acc))"

declare decimal.simps [simp del]

definition number_text :: "int \<Rightarrow> string" where
  "number_text i = (if 0 \<le> i then decimal (nat i) [] else CHR ''-'' # decimal (nat (- i)) [])"

section \<open>retryUtils\<close>

record RetryConfig =
  maxAttempts :: int
  baseDelay :: int
  maxDelay :: int
  backoffMultiplier :: int
  retryableErrors :: "string list"

definition DEFAULT_RETRY_CONFIG :: RetryConfig where
  "DEFAULT_RETRY_CONFIG =
     \<lparr> maxAttempts = 3, baseDelay = 2000, maxDelay = 10000, backoffMultiplier = 2,
       retryableErrors = [''RESOURCE_EXHAUSTED'', ''DEADLINE_EXCEEDED'', ''UNAVAILABLE'',
         ''INTERNAL'', ''ECONNRESET'', ''ETIMEDOUT'', ''ENOTFOUND''] \<rparr>"

text \<open>
  \<^verbatim>\<open>config.baseDelay * Math.pow(config.backoffMultiplier, attempt - 1)\<close>, capped by
  \<^verbatim>\<open>Math.min\<close>. The numbers are integers here. The attempt number is 1-based: the
  retry loop starts it at 1, and the exponent \<open>attempt - 1\<close> is read as a natural
  number (for an attempt below 1, which the loop never passes, \<^verbatim>\<open>Math.pow\<close> would give
  a fraction, which this definition does not describe).
\<close>

definition calculateBackoffDelay :: "int \<Rightarrow> RetryConfig \<Rightarrow> int" where
  "calculateBackoffDelay attempt config =
     (let delay = baseDelay config * backoffMultiplier config ^ nat (attempt - 1)
      in min delay (maxDelay config))"

text \<open>
  The checks in the order of the source: a falsy error, an explicit \<^verbatim>\<open>true\<close>, an
  explicit \<^verbatim>\<open>false\<close> (both with \<^verbatim>\<open>===\<close>), then the markers against
  \<^verbatim>\<open>error.code || ''\<close> and \<^verbatim>\<open>error.message || ''\<close>.
\<close>

definition isRetryableError :: "thrown \<Rightarrow> RetryConfig \<Rightarrow> bool" where
  "isRetryableError error config =
     (case error of
        Falsy \<Rightarrow> False
      | Thrown e \<Rightarrow>
          if err_retryable e = JBool True then True
          else if err_retryable e = JBool False then False
          else (let errorCode = or_default (err_code e) [];
                    errorMessage = or_default (err_message e) []
                in list_ex (\<lambda>retryableError.
                     str_includes errorCode retryableError \<or>
                     str_includes errorMessage retryableError) (retryableErrors config)))"

text \<open>
  Time is counted in milliseconds. One invocation of the operation \<^verbatim>\<open>fn\<close> is
  described by how long its promise takes to settle and by how it settles (\<open>Inl\<close>: it
  rejects with that value, \<open>Inr\<close>: it resolves). The operation is a function of the
  attempt number, since the loop calls it once per attempt.
\<close>

record 'a attempt =
  att_duration :: nat
  att_outcome :: "thrown + 'a"

text \<open>
  What a run of \<^verbatim>\<open>retryWithBackoff\<close> does: how and when (after its start) its promise
  settles, how often \<^verbatim>\<open>fn\<close> was called, the delays passed to \<^verbatim>\<open>sleep\<close> in order,
  and the calls of \<^verbatim>\<open>onRetry\<close> (when, attempt number, error).
\<close>

record 'a retry_run =
  run_result :: "thrown + 'a"
  run_settled :: nat
  run_calls :: nat
  run_sleeps :: "int list"
  run_retries :: "(nat \<times> int \<times> thrown) list"

text \<open>
  The \<^verbatim>\<open>for\<close> loop of \<^verbatim>\<open>retryWithBackoff\<close>, from attempt \<open>attempt\<close> at time
  \<open>now\<close>. \<^verbatim>\<open>sleep(delay)\<close> takes \<open>delay\<close> milliseconds (none for a negative delay).
  The last branch is the \<^verbatim>\<open>throw lastError\<close> after the loop.
\<close>

function retryLoop ::
  "(int \<Rightarrow> 'a attempt) \<Rightarrow> RetryConfig \<Rightarrow> int \<Rightarrow> nat \<Rightarrow> thrown \<Rightarrow> 'a retry_run" where
  "retryLoop fn config attempt now lastError =
     (if attempt \<le> maxAttempts config then
        (case att_outcome (fn attempt) of
           Inr v \<Rightarrow>
             \<lparr> run_result = Inr v, run_settled = now + att_duration (fn attempt),
               run_calls = 1, run_sleeps = [], run_retries = [] \<rparr>
         | Inl error \<Rightarrow>
             if attempt \<ge> maxAttempts config \<or> \<not> isRetryableError error config then
               \<lparr> run_result = Inl error, run_settled = now + att_duration (fn attempt),
                 run_calls = 1, run_sleeps = [], run_retries = [] \<rparr>
             else
               (let delay = calculateBackoffDelay attempt config;
                    t = now + att_duration (fn attempt);
                    r = retryLoop fn config (attempt + 1) (t + nat delay) error
                in r \<lparr> run_calls := run_calls r + 1,
                       run_sleeps := delay # run_sleeps r,
                       run_retries := (t, attempt, error) # run_retries r \<rparr>))
      else
        \<lparr> run_result = Inl lastError, run_settled = now,
          run_calls = 0, run_sleeps = [], run_retries = [] \<rparr>)"
  by pat_completeness auto
termination
  by (relation "measure (\<lambda>(fn, config, attempt, now, lastError). nat (maxAttempts config - attempt))")
     auto

declare retryLoop.simps [simp del]

definition retryWithBackoff :: "(int \<Rightarrow> 'a attempt) \<Rightarrow> RetryConfig \<Rightarrow> 'a retry_run" where
  "retryWithBackoff fn config = retryLoop fn config 1 0 Falsy"

text \<open>
  A promise, as far as this development needs it: when it settles and how.
  \<^verbatim>\<open>createTimeout\<close> rejects after \<open>ms\<close> milliseconds with an \<^verbatim>\<open>Error\<close> whose
  \<^verbatim>\<open>code\<close> is \<^verbatim>\<open>TIMEOUT\<close> and whose \<^verbatim>\<open>retryable\<close> is \<^verbatim>\<open>true\<close>; the message
  defaults to \<^verbatim>\<open>Operation timed out\<close>.
\<close>

type_synonym 'a promise = "nat \<times> (thrown + 'a)"

definition createTimeout :: "nat \<Rightarrow> string option \<Rightarrow> 'a promise" where
  "createTimeout ms message =
     (ms, Inl (Thrown \<lparr> err_code = Some ''TIMEOUT'',
                        err_message = Some (case message of None \<Rightarrow> ''Operation timed out'' | Some m \<Rightarrow> m),
                        err_retryable = JBool True \<rparr>))"

text \<open>
  \<^verbatim>\<open>Promise.race([p, q])\<close> settles as the one that settles first; if both settle in the
  same millisecond the model lets the first of the array win.
\<close>

definition race :: "nat \<times> 'b \<Rightarrow> nat \<times> 'b \<Rightarrow> nat \<times> 'b" where
  "race p q = (if fst p \<le> fst q then p else q)"

definition withTimeout :: "'a promise \<Rightarrow> nat \<Rightarrow> string option \<Rightarrow> 'a promise" where
  "withTimeout promise timeoutMs timeoutMessage =
     race promise (createTimeout timeoutMs timeoutMessage)"

definition run_promise :: "'a retry_run \<Rightarrow> 'a promise" where
  "run_promise r = (run_settled r, run_result r)"


section \<open>GeminiService\<close>

text \<open>
  What reaches the \<^verbatim>\<open>catch\<close> of \<^verbatim>\<open>GeminiService.processOCR\<close>: an error of the
  vision library, or the error of the service's own timer, with an optional message and
  an optional code.
\<close>

record sdk_error =
  sdk_message :: "string option"
  sdk_code :: "string option"

definition gemini_retryableErrors :: "string list" where
  "gemini_retryableErrors =
     [''RESOURCE_EXHAUSTED'', ''DEADLINE_EXCEEDED'', ''UNAVAILABLE'', ''INTERNAL'']"

text \<open>
  The \<^verbatim>\<open>catch\<close> block. \<^verbatim>\<open>err.message && retryableErrors.some(...)\<close> is the
  message itself when the message is falsy (absent: \<^verbatim>\<open>undefined\<close>; empty: the empty
  string), and the boolean of \<^verbatim>\<open>some\<close> otherwise.
\<close>

definition processOCR_catch :: "sdk_error \<Rightarrow> js_error" where
  "processOCR_catch err =
     (let isRetryable =
            (case sdk_message err of
               None \<Rightarrow> Undefined
             | Some m \<Rightarrow>
                 if m = [] then JStr []
                 else JBool (list_ex (\<lambda>errType. str_includes m errType) gemini_retryableErrors))
      in \<lparr> err_code = Some (or_default (sdk_code err) ''GEMINI_ERROR''),
           err_message = Some (or_default (sdk_message err) ''Failed to process image with Gemini''),
           err_retryable = isRetryable \<rparr>)"

text \<open>
  One call of the vision backend through the service. The call of the library is
  described by how long it takes and how it ends. The \<^verbatim>\<open>try\<close> block races it against
  the service's own timer, \<^verbatim>\<open>setTimeout\<close> over \<^verbatim>\<open>config.timeout\<close> milliseconds, which
  rejects with \<^verbatim>\<open>new Error(`Request timeout after ${this.config.timeout}ms`)\<close>; what
  loses the race is ignored. A rejection, of the library or of the timer, goes through
  the \<^verbatim>\<open>catch\<close> block.
\<close>

record vision_call =
  call_duration :: nat
  call_outcome :: "sdk_error + string"

definition request_timeout :: "nat \<Rightarrow> sdk_error" where
  "request_timeout timeout =
     \<lparr> sdk_message = Some (''Request timeout after '' @ number_text (int timeout) @ ''ms''),
       sdk_code = None \<rparr>"

definition GeminiService_processOCR :: "nat \<Rightarrow> vision_call \<Rightarrow> string attempt" where
  "GeminiService_processOCR timeout c =
     (let result = race (call_duration c, call_outcome c) (timeout, Inl (request_timeout timeout))
      in \<lparr> att_duration = fst result,
           att_outcome = (case snd result of
                            Inl err \<Rightarrow> Inl (Thrown (processOCR_catch err))
                          | Inr txt \<Rightarrow> Inr txt) \<rparr>)"

section \<open>ImageProcessingService\<close>

text \<open>Coordinates and sizes are pixel counts, modelled as integers.\<close>

record Region =
  reg_id :: string
  reg_x :: int
  reg_y :: int
  reg_width :: int
  reg_height :: int
  reg_color :: string
  reg_label :: "string option"

type_synonym buffer = "nat list"

record ProcessedRegion =
  pr_regionId :: string
  pr_imageBuffer :: buffer
  pr_mimeType :: string

record validation =
  valid :: bool
  errors :: "string list"

text \<open>The body of the loop of \<^verbatim>\<open>validateRegions\<close>: the messages one region adds.\<close>

definition region_checks :: "int \<Rightarrow> int \<Rightarrow> Region \<Rightarrow> string list" where
  "region_checks w h region =
     (if reg_x region < 0 \<or> reg_y region < 0
      then [''Region '' @ reg_id region @ '' has negative coordinates''] else []) @
     (if reg_x region + reg_width region > w
      then [''Region '' @ reg_id region @ '' extends beyond image width''] else []) @
     (if reg_y region + reg_height region > h
      then [''Region '' @ reg_id region @ '' extends beyond image height''] else []) @
     (if reg_width region < 10 \<or> reg_height region < 10
      then [''Region '' @ reg_id region @ '' is too small (minimum 10x10 pixels)''] else [])"

fun validate_loop :: "int \<Rightarrow> int \<Rightarrow> string list \<Rightarrow> Region list \<Rightarrow> string list" where
  "validate_loop w h errs [] = errs"
| "validate_loop w h errs (region # regions) =
     validate_loop w h (errs @ region_checks w h region) regions"

text \<open>
  \<^verbatim>\<open>sharp(imagePath).metadata()\<close> is an input: \<open>None\<close> when it throws, otherwise the
  width and the height, each possibly absent. \<^verbatim>\<open>!metadata.width\<close> holds for an absent
  width and for 0.
\<close>

definition validateRegions :: "(int option \<times> int option) option \<Rightarrow> Region list \<Rightarrow> validation" where
  "validateRegions metadata regions =
     (case metadata of
        None \<Rightarrow> \<lparr> valid = False, errors = [''Failed to validate image''] \<rparr>
      | Some (Some w, Some h) \<Rightarrow>
          if w = 0 \<or> h = 0
          then \<lparr> valid = False, errors = [''Unable to read image dimensions''] \<rparr>
          else (let errs = validate_loop w h [] regions
                in \<lparr> valid = (length errs = 0), errors = errs \<rparr>)
      | Some _ \<Rightarrow> \<lparr> valid = False, errors = [''Unable to read image dimensions''] \<rparr>)"

text \<open>
  \<^verbatim>\<open>cropRegions\<close>: the extraction of one rectangle is an input (\<open>None\<close> when
  \<^verbatim>\<open>sharp\<close> throws). The first failure aborts the call.
\<close>

fun crop_loop ::
  "(Region \<Rightarrow> buffer option) \<Rightarrow> ProcessedRegion list \<Rightarrow> Region list \<Rightarrow> thrown + ProcessedRegion list" where
  "crop_loop extract processedRegions [] = Inr processedRegions"
| "crop_loop extract processedRegions (region # regions) =
     (case extract region of
        None \<Rightarrow>
          Inl (Thrown \<lparr> err_code = None,
                         err_message = Some (''Failed to process region '' @ reg_id region),
                         err_retryable = Undefined \<rparr>)
      | Some croppedBuffer \<Rightarrow>
          crop_loop extract
            (processedRegions @
               [\<lparr> pr_regionId = reg_id region, pr_imageBuffer = croppedBuffer,
                  pr_mimeType = ''image/png'' \<rparr>])
            regions)"

definition cropRegions :: "(Region \<Rightarrow> buffer option) \<Rightarrow> Region list \<Rightarrow> thrown + ProcessedRegion list" where
  "cropRegions extract regions = crop_loop extract [] regions"


section \<open>ocrController\<close>

datatype status = pending | processing | completed | failed

record result_error =
  re_code :: string
  re_message :: string
  re_retryable :: bool

record OCRResult =
  res_regionId :: string
  res_text :: string
  res_processingTime :: nat
  res_error :: "result_error option"

record OCRSession =
  ses_id :: string
  ses_imageId :: string
  ses_regions :: "Region list"
  ses_results :: "OCRResult list"
  ses_status :: status
  ses_createdAt :: nat
  ses_completedAt :: "nat option"

text \<open>
  The value of \<^verbatim>\<open>parseInt\<close>: an integer, or \<^verbatim>\<open>NaN\<close> when the string does not start
  with a number. Addition and \<^verbatim>\<open><\<close> as JavaScript has them on these values, and
  \<^verbatim>\<open>Array.prototype.slice\<close>, which reads \<^verbatim>\<open>NaN\<close> as 0, counts a negative index from
  the end and clamps both indices to the array.
\<close>

datatype jsnum = NaN | Num int

fun js_add :: "jsnum \<Rightarrow> jsnum \<Rightarrow> jsnum" where
  "js_add (Num a) (Num b) = Num (a + b)"
| "js_add _ _ = NaN"

fun js_less :: "jsnum \<Rightarrow> jsnum \<Rightarrow> bool" where
  "js_less (Num a) (Num b) = (a < b)"
| "js_less _ _ = False"

fun to_integer :: "jsnum \<Rightarrow> int" where
  "to_integer NaN = 0"
| "to_integer (Num n) = n"

definition js_slice :: "'a list \<Rightarrow> jsnum \<Rightarrow> jsnum \<Rightarrow> 'a list" where
  "js_slice xs start fin =
     (let len = int (length xs);
          relativeStart = to_integer start;
          relativeEnd = to_integer fin;
          k = (if relativeStart < 0 then max (len + relativeStart) 0 else min relativeStart len);
          final = (if relativeEnd < 0 then max (len + relativeEnd) 0 else min relativeEnd len)
      in take (nat (final - k)) (drop (nat k) xs))"

text \<open>
  The loop that splits the cropped regions into batches:
  \<^verbatim>\<open>for (let i = 0; i < processedRegions.length; i += concurrencyLimit)
    batches.push(processedRegions.slice(i, i + concurrencyLimit))\<close>.
  It need not end (a limit of 0 never advances \<open>i\<close>), so its result is optional:
  \<open>None\<close> stands for a loop that runs forever.
\<close>

partial_function (option) split_loop ::
  "jsnum \<Rightarrow> 'a list \<Rightarrow> jsnum \<Rightarrow> 'a list list \<Rightarrow> 'a list list option" where
  "split_loop concurrencyLimit processedRegions i batches =
     (if js_less i (Num (int (length processedRegions)))
      then split_loop concurrencyLimit processedRegions (js_add i concurrencyLimit)
             (batches @ [js_slice processedRegions i (js_add i concurrencyLimit)])
      else Some batches)"

declare split_loop.simps [code]

definition split_batches :: "jsnum \<Rightarrow> 'a list \<Rightarrow> 'a list list option" where
  "split_batches concurrencyLimit processedRegions =
     split_loop concurrencyLimit processedRegions (Num 0) []"

text \<open>
  Everything \<^verbatim>\<open>processOCRAsync\<close> reads from outside: the directory listing (\<open>None\<close>
  when \<^verbatim>\<open>readdir\<close> rejects), the image metadata, the extraction of a rectangle, the
  environment variable \<^verbatim>\<open>OCR_CONCURRENCY_LIMIT\<close> (\<open>None\<close> when unset or empty, else
  what \<^verbatim>\<open>parseInt\<close> makes of it), the timeout \<^verbatim>\<open>geminiConfig.timeout\<close> (which both the service and
  \<^verbatim>\<open>withTimeout\<close> get), how long the steps before the batches take together, how long \<^verbatim>\<open>optimizeForOCR\<close> takes for the
  region at a position, and how the vision library answers the \<open>k\<close>-th call for the
  region at a position.
\<close>

record world =
  w_readdir :: "string list option"
  w_metadata :: "(int option \<times> int option) option"
  w_extract :: "Region \<Rightarrow> buffer option"
  w_OCR_CONCURRENCY_LIMIT :: "jsnum option"
  w_timeout :: nat
  w_prepare :: nat
  w_optimize :: "nat \<Rightarrow> nat"
  w_vision :: "nat \<Rightarrow> int \<Rightarrow> vision_call"

text \<open>\<^verbatim>\<open>parseInt(process.env.OCR_CONCURRENCY_LIMIT || '3')\<close>\<close>

definition concurrencyLimit :: "world \<Rightarrow> jsnum" where
  "concurrencyLimit w = (case w_OCR_CONCURRENCY_LIMIT w of None \<Rightarrow> Num 3 | Some n \<Rightarrow> n)"

text \<open>
  The end of \<^verbatim>\<open>processRegion\<close>: the \<^verbatim>\<open>return\<close> after the awaited call, or the
  \<^verbatim>\<open>catch\<close> block. Reading \<^verbatim>\<open>err.code\<close> of a falsy value is a \<^verbatim>\<open>TypeError\<close>, with
  which \<^verbatim>\<open>processRegion\<close> itself rejects.
\<close>

definition type_error :: js_error where
  "type_error = \<lparr> err_code = None,
                   err_message = Some ''Cannot read properties of undefined'',
                   err_retryable = Undefined \<rparr>"

definition region_result :: "string \<Rightarrow> nat \<Rightarrow> thrown + string \<Rightarrow> thrown + OCRResult" where
  "region_result regionId elapsed awaited =
     (case awaited of
        Inr txt \<Rightarrow>
          Inr \<lparr> res_regionId = regionId, res_text = txt, res_processingTime = elapsed,
                res_error = None \<rparr>
      | Inl Falsy \<Rightarrow> Inl (Thrown type_error)
      | Inl (Thrown err) \<Rightarrow>
          Inr \<lparr> res_regionId = regionId, res_text = [], res_processingTime = elapsed,
                res_error = Some \<lparr> re_code = or_default (err_code err) ''PROCESSING_ERROR'',
                                   re_message = or_default (err_message err) ''Failed to process region'',
                                   re_retryable = False \<rparr> \<rparr>)"

text \<open>
  One call of \<^verbatim>\<open>processRegion\<close>, started at \<open>startTime\<close> for the cropped region at
  position \<open>i\<close>: when and how its promise settles, and the calls of the \<^verbatim>\<open>onRetry\<close>
  callback it causes (time, region id, attempt, error). The retry loop is not stopped
  when the timer wins the race, so all its callbacks are listed.
\<close>

record region_run =
  rr_promise :: "OCRResult promise"
  rr_callbacks :: "(nat \<times> string \<times> int \<times> thrown) list"

definition processRegion :: "world \<Rightarrow> nat \<Rightarrow> nat \<times> ProcessedRegion \<Rightarrow> region_run" where
  "processRegion w startTime ip =
     (let i = fst ip;
          processedRegion = snd ip;
          t1 = startTime + w_optimize w i;
          run = retryWithBackoff (\<lambda>k. GeminiService_processOCR (w_timeout w) (w_vision w i k))
                  DEFAULT_RETRY_CONFIG;
          p = withTimeout (run_promise run) (w_timeout w) (Some ''OCR processing timed out'');
          fin = t1 + fst p
      in \<lparr> rr_promise = (fin, region_result (pr_regionId processedRegion) (fin - startTime) (snd p)),
           rr_callbacks = map (\<lambda>(t, attempt, e). (t1 + t, pr_regionId processedRegion, attempt, e))
                              (run_retries run) \<rparr>)"

text \<open>
  \<^verbatim>\<open>Promise.all\<close> at time \<open>now\<close>: it rejects as soon as a member rejects, with that
  member's error; otherwise it resolves when the last member has, with the values in
  the order of the array.
\<close>

fun first_rejection :: "'a promise list \<Rightarrow> (nat \<times> thrown) option" where
  "first_rejection [] = None"
| "first_rejection ((t, Inr v) # ps) = first_rejection ps"
| "first_rejection ((t, Inl e) # ps) =
     (case first_rejection ps of
        None \<Rightarrow> Some (t, e)
      | Some (t', e') \<Rightarrow> if t \<le> t' then Some (t, e) else Some (t', e'))"

fun resolved_values :: "'a promise list \<Rightarrow> 'a list" where
  "resolved_values [] = []"
| "resolved_values ((t, Inr v) # ps) = v # resolved_values ps"
| "resolved_values ((t, Inl e) # ps) = resolved_values ps"

definition promise_all :: "nat \<Rightarrow> 'a promise list \<Rightarrow> 'a list promise" where
  "promise_all now ps =
     (case first_rejection ps of
        Some (t, e) \<Rightarrow> (t, Inl e)
      | None \<Rightarrow> (fold max (map fst ps) now, Inr (resolved_values ps)))"

text \<open>
  The loop over the batches: a batch starts at \<open>now\<close>, all its members start then, and
  the next batch starts when \<^verbatim>\<open>await processBatch(batch)\<close> returns. A batch that rejects
  ends the loop.
\<close>

record batch_run =
  br_start :: nat
  br_members :: "region_run list"
  br_promise :: "OCRResult list promise"

fun run_batches :: "world \<Rightarrow> nat \<Rightarrow> (nat \<times> ProcessedRegion) list list \<Rightarrow> batch_run list" where
  "run_batches w now [] = []"
| "run_batches w now (batch # batches) =
     (let members = map (processRegion w now) batch;
          p = promise_all now (map rr_promise members);
          this = \<lparr> br_start = now, br_members = members, br_promise = p \<rparr>
      in case snd p of
           Inl e \<Rightarrow> [this]
         | Inr batchResults \<Rightarrow> this # run_batches w (fst p) batches)"

text \<open>
  What happens to the session, with the time at which it happens: a result is pushed,
  the status is set (together with \<^verbatim>\<open>completedAt\<close>), or the \<^verbatim>\<open>onRetry\<close> callback runs.
\<close>

datatype event = Push OCRResult | Finish status | Retry string int thrown

fun main_events :: "nat \<Rightarrow> batch_run list \<Rightarrow> (nat \<times> event) list" where
  "main_events now [] = [(now, Finish completed)]"
| "main_events now (b # bs) =
     (case snd (br_promise b) of
        Inl e \<Rightarrow> [(fst (br_promise b), Finish failed)]
      | Inr batchResults \<Rightarrow>
          map (\<lambda>result. (fst (br_promise b), Push result)) batchResults @
          main_events (fst (br_promise b)) bs)"

definition retry_events :: "batch_run list \<Rightarrow> (nat \<times> event) list" where
  "retry_events runs =
     concat (map (\<lambda>b. concat (map (\<lambda>m. map (\<lambda>(t, regionId, attempt, e). (t, Retry regionId attempt e))
                                           (rr_callbacks m))
                              (br_members b)))
                 runs)"

text \<open>
  \<^verbatim>\<open>processOCRAsync\<close>, started at \<open>t0\<close>: the events of the session in the order of
  time (the steps of the function itself before a callback of the same millisecond), or
  \<open>None\<close> when the splitting loop never ends. The oracle for a cropped region is
  looked up by its position, so the regions are numbered before they are split.
  \<^verbatim>\<open>cleanupOldSessions\<close>, which runs last, only deletes sessions older than an hour from
  the store, and the \<^verbatim>\<open>catch\<close> that \<^verbatim>\<open>processOCR\<close> attaches runs only if
  \<^verbatim>\<open>processOCRAsync\<close> rejects, which its own \<^verbatim>\<open>try\<close> and \<^verbatim>\<open>catch\<close> exclude; neither
  is an event of the session.
\<close>

definition processOCRAsync :: "world \<Rightarrow> string \<Rightarrow> Region list \<Rightarrow> nat \<Rightarrow> (nat \<times> event) list option" where
  "processOCRAsync w imageId regions t0 =
     (let t1 = t0 + w_prepare w;
          caught = Some [(t1, Finish failed)]
      in case w_readdir w of
           None \<Rightarrow> caught
         | Some files \<Rightarrow>
             (case find (\<lambda>file. prefix (imageId @ ''_'') file) files of
                None \<Rightarrow> caught
              | Some imageFile \<Rightarrow>
                  if \<not> valid (validateRegions (w_metadata w) regions) then caught
                  else
                    (case cropRegions (w_extract w) regions of
                       Inl e \<Rightarrow> caught
                     | Inr processedRegions \<Rightarrow>
                         (case split_batches (concurrencyLimit w) (enumerate 0 processedRegions) of
                            None \<Rightarrow> None
                          | Some batches \<Rightarrow>
                              (let runs = run_batches w t1 batches
                               in Some (sort_key fst (main_events t1 runs @ retry_events runs)))))))"

definition timeline :: "world \<Rightarrow> string \<Rightarrow> Region list \<Rightarrow> nat \<Rightarrow> (nat \<times> event) list" where
  "timeline w imageId regions t0 =
     (case processOCRAsync w imageId regions t0 of None \<Rightarrow> [] | Some evs \<Rightarrow> evs)"

text \<open>The session as \<^verbatim>\<open>processOCR\<close> creates it.\<close>

definition new_session :: "string \<Rightarrow> string \<Rightarrow> Region list \<Rightarrow> nat \<Rightarrow> OCRSession" where
  "new_session sessionId imageId regions now =
     \<lparr> ses_id = sessionId, ses_imageId = imageId, ses_regions = regions, ses_results = [],
       ses_status = processing, ses_createdAt = now, ses_completedAt = None \<rparr>"

text \<open>
  The callback passed as \<^verbatim>\<open>onRetry\<close>: the first result with the region's id, if it has
  an error, gets the message \<^verbatim>\<open>Retry attempt N: ...\<close>. The callback is only called with a
  retryable error, which is an object; an absent message prints as \<^verbatim>\<open>undefined\<close>.
\<close>

fun note_retry :: "string \<Rightarrow> string \<Rightarrow> OCRResult list \<Rightarrow> OCRResult list" where
  "note_retry regionId msg [] = []"
| "note_retry regionId msg (r # rs) =
     (if res_regionId r = regionId then
        (case res_error r of
           None \<Rightarrow> r # rs
         | Some e \<Rightarrow> r \<lparr> res_error := Some (e \<lparr> re_message := msg \<rparr>) \<rparr> # rs)
      else r # note_retry regionId msg rs)"

fun apply_event :: "OCRSession \<Rightarrow> nat \<times> event \<Rightarrow> OCRSession" where
  "apply_event s (t, Push result) = s \<lparr> ses_results := ses_results s @ [result] \<rparr>"
| "apply_event s (t, Finish st) = s \<lparr> ses_status := st, ses_completedAt := Some t \<rparr>"
| "apply_event s (t, Retry regionId attempt Falsy) = s"
| "apply_event s (t, Retry regionId attempt (Thrown error)) =
     s \<lparr> ses_results :=
           note_retry regionId
             (''Retry attempt '' @ number_text attempt @ '': '' @
                (case err_message error of None \<Rightarrow> ''undefined'' | Some m \<Rightarrow> m))
             (ses_results s) \<rparr>"

text \<open>The session after the first \<open>n\<close> events, and at a time \<open>t\<close>.\<close>

definition session_after :: "nat \<Rightarrow> world \<Rightarrow> string \<Rightarrow> string \<Rightarrow> Region list \<Rightarrow> nat \<Rightarrow> OCRSession" where
  "session_after n w sessionId imageId regions t0 =
     foldl apply_event (new_session sessionId imageId regions t0)
       (take n (timeline w imageId regions t0))"

definition session_at :: "nat \<Rightarrow> world \<Rightarrow> string \<Rightarrow> string \<Rightarrow> Region list \<Rightarrow> nat \<Rightarrow> OCRSession" where
  "session_at t w sessionId imageId regions t0 =
     foldl apply_event (new_session sessionId imageId regions t0)
       (filter (\<lambda>ev. fst ev \<le> t) (timeline w imageId regions t0))"

text \<open>\<^verbatim>\<open>getOCRStatus\<close> on the session store, at time \<open>now\<close>.\<close>

record status_response =
  rsp_sessionId :: string
  rsp_results :: "OCRResult list"
  rsp_processingTime :: int
  rsp_success :: bool
  rsp_status :: status
  rsp_current :: nat
  rsp_total :: nat

datatype http_error = SESSION_NOT_FOUND

definition getOCRStatus :: "(string \<rightharpoonup> OCRSession) \<Rightarrow> string \<Rightarrow> nat \<Rightarrow> http_error + status_response" where
  "getOCRStatus sessions sessionId now =
     (case sessions sessionId of
        None \<Rightarrow> Inl SESSION_NOT_FOUND
      | Some session \<Rightarrow>
          Inr \<lparr> rsp_sessionId = ses_id session,
                rsp_results = ses_results session,
                rsp_processingTime =
                  (case ses_completedAt session of
                     Some c \<Rightarrow> int c - int (ses_createdAt session)
                   | None \<Rightarrow> int now - int (ses_createdAt session)),
                rsp_success = (ses_status session = completed),
                rsp_status = ses_status session,
                rsp_current = length (ses_results session),
                rsp_total = length (ses_regions session) \<rparr>)"

section \<open>A reference for the batches\<close>

text \<open>
  Consecutive pieces of \<open>n\<close> elements, the last one possibly shorter: what the
  specification says the splitting loop produces. Used to state what the loop computes.
\<close>

function chunks :: "nat \<Rightarrow> 'a list \<Rightarrow> 'a list list" where
  "chunks n xs = (if n = 0 \<or> xs = [] then [] else take n xs # chunks n (drop n xs))"
  by pat_completeness auto
termination
  by (relation "measure (\<lambda>(n, xs). length xs)") auto

declare chunks.simps [simp del]

section \<open>Concrete inputs\<close>

text \<open>
  An operation that fails twice with \<^verbatim>\<open>RESOURCE_EXHAUSTED\<close> in its message and then
  returns a text.
\<close>

definition flaky_twice :: "int \<Rightarrow> string attempt" where
  "flaky_twice k =
     (if k < 3
      then \<lparr> att_duration = 100,
             att_outcome = Inl (Thrown \<lparr> err_code = None,
                                          err_message = Some ''RESOURCE_EXHAUSTED'',
                                          err_retryable = Undefined \<rparr>) \<rparr>
      else \<lparr> att_duration = 100, att_outcome = Inr ''text'' \<rparr>)"

text \<open>
  An operation that always fails with an error that names two markers and says
  \<^verbatim>\<open>retryable: false\<close>, and an error without markers that says \<^verbatim>\<open>retryable: true\<close>.
\<close>

definition marked_not_retryable :: js_error where
  "marked_not_retryable =
     \<lparr> err_code = Some ''UNAVAILABLE'', err_message = Some ''RESOURCE_EXHAUSTED: quota'',
       err_retryable = JBool False \<rparr>"

definition unmarked_retryable :: js_error where
  "unmarked_retryable =
     \<lparr> err_code = Some ''E42'', err_message = Some ''bad input'', err_retryable = JBool True \<rparr>"

definition always_fails :: "int \<Rightarrow> string attempt" where
  "always_fails k = \<lparr> att_duration = 50, att_outcome = Inl (Thrown marked_not_retryable) \<rparr>"


text \<open>
  Three regions on a 100 by 100 image: a 10 by 10 region in the lower right corner, a
  region that starts left of the image, and a 5 by 5 region.
\<close>

definition corner_region :: Region where
  "corner_region = \<lparr> reg_id = ''a'', reg_x = 90, reg_y = 90, reg_width = 10, reg_height = 10,
                      reg_color = ''red'', reg_label = None \<rparr>"

definition negative_region :: Region where
  "negative_region = \<lparr> reg_id = ''b'', reg_x = - 5, reg_y = 0, reg_width = 50, reg_height = 50,
                        reg_color = ''red'', reg_label = None \<rparr>"

definition small_region :: Region where
  "small_region = \<lparr> reg_id = ''c'', reg_x = 0, reg_y = 0, reg_width = 5, reg_height = 5,
                     reg_color = ''red'', reg_label = None \<rparr>"

text \<open>Errors of the vision backend: without a message, with a marker, without a marker.\<close>

definition sdk_no_message :: sdk_error where
  "sdk_no_message = \<lparr> sdk_message = None, sdk_code = Some ''UNAVAILABLE'' \<rparr>"

definition sdk_unavailable :: sdk_error where
  "sdk_unavailable = \<lparr> sdk_message = Some ''503 UNAVAILABLE'', sdk_code = None \<rparr>"

definition sdk_bad_request :: sdk_error where
  "sdk_bad_request = \<lparr> sdk_message = Some ''400 bad request'', sdk_code = Some ''E400'' \<rparr>"


section \<open>Reading the events\<close>

text \<open>
  The results that a list of events pushes, the status it leaves, and the events that
  \<^verbatim>\<open>processOCRAsync\<close> itself causes (all but the callbacks).
\<close>

fun pushed :: "(nat \<times> event) list \<Rightarrow> OCRResult list" where
  "pushed [] = []"
| "pushed ((t, Push r) # evs) = r # pushed evs"
| "pushed ((t, Finish st) # evs) = pushed evs"
| "pushed ((t, Retry regionId attempt e) # evs) = pushed evs"

fun final_status :: "status \<Rightarrow> (nat \<times> event) list \<Rightarrow> status" where
  "final_status st [] = st"
| "final_status st ((t, Finish st') # evs) = final_status st' evs"
| "final_status st ((t, Push r) # evs) = final_status st evs"
| "final_status st ((t, Retry regionId attempt e) # evs) = final_status st evs"

fun is_main :: "nat \<times> event \<Rightarrow> bool" where
  "is_main (t, Retry regionId attempt e) = False"
| "is_main (t, Push r) = True"
| "is_main (t, Finish st) = True"


text \<open>
  The faults outside the processing of a region: the image file is not found (or the
  directory cannot be read), the regions are not valid, or a region cannot be cropped.
\<close>

definition top_level_fault :: "world \<Rightarrow> string \<Rightarrow> Region list \<Rightarrow> bool" where
  "top_level_fault w imageId regions =
     (case w_readdir w of
        None \<Rightarrow> True
      | Some files \<Rightarrow>
          find (\<lambda>file. prefix (imageId @ ''_'') file) files = None \<or>
          \<not> valid (validateRegions (w_metadata w) regions) \<or>
          isl (cropRegions (w_extract w) regions))"


text \<open>
  Worlds for sessions on the image \<^verbatim>\<open>img1\<close>, 100 by 100 pixels, with 50 by 50 regions.
  In the calm world every call of the backend returns a text after 100 ms.
\<close>

definition plain_region :: "string \<Rightarrow> Region" where
  "plain_region i = \<lparr> reg_id = i, reg_x = 0, reg_y = 0, reg_width = 50, reg_height = 50,
                       reg_color = ''red'', reg_label = None \<rparr>"

definition one_region :: "Region list" where
  "one_region = map plain_region [''r1'']"

definition four_regions :: "Region list" where
  "four_regions = map plain_region [''r1'', ''r2'', ''r3'', ''r4'']"

definition calm_world :: world where
  "calm_world =
     \<lparr> w_readdir = Some [''img1_photo.png''], w_metadata = Some (Some 100, Some 100),
       w_extract = (\<lambda>r. Some []), w_OCR_CONCURRENCY_LIMIT = None, w_timeout = 30000,
       w_prepare = 10, w_optimize = (\<lambda>i. 0),
       w_vision = (\<lambda>i k. \<lparr> call_duration = 100, call_outcome = Inr ''hello'' \<rparr>) \<rparr>"

text \<open>The calm world with \<^verbatim>\<open>OCR_CONCURRENCY_LIMIT=abc\<close>, which \<^verbatim>\<open>parseInt\<close> reads as \<^verbatim>\<open>NaN\<close>.\<close>

definition nan_world :: world where
  "nan_world = calm_world \<lparr> w_OCR_CONCURRENCY_LIMIT := Some NaN \<rparr>"

text \<open>The calm world without the uploaded file.\<close>

definition lost_world :: world where
  "lost_world = calm_world \<lparr> w_readdir := Some [''img2_other.png''] \<rparr>"

text \<open>A library call that needs 40 seconds, against a timeout of 30 seconds.\<close>

definition slow_world :: world where
  "slow_world =
     calm_world \<lparr> w_vision := (\<lambda>i k. \<lparr> call_duration = 40000, call_outcome = Inr ''late'' \<rparr>) \<rparr>"

text \<open>
  A backend that answers \<^verbatim>\<open>503 UNAVAILABLE\<close> after 29 seconds, again half a second after
  the second call, and returns a text on the third call.
\<close>

definition late_retry_world :: world where
  "late_retry_world =
     calm_world \<lparr> w_vision := (\<lambda>i k.
       if k = 1 then \<lparr> call_duration = 29000, call_outcome = Inl sdk_unavailable \<rparr>
       else if k = 2 then \<lparr> call_duration = 500, call_outcome = Inl sdk_unavailable \<rparr>
       else \<lparr> call_duration = 100, call_outcome = Inr ''hello'' \<rparr>) \<rparr>"

text \<open>
  A backend that answers \<^verbatim>\<open>503 UNAVAILABLE\<close> after 12 seconds, every time: no call takes
  as long as the timeout, the three calls with the two sleeps take 42 seconds.
\<close>

definition busy_world :: world where
  "busy_world =
     calm_world \<lparr> w_vision := (\<lambda>i k. \<lparr> call_duration = 12000, call_outcome = Inl sdk_unavailable \<rparr>) \<rparr>"


text \<open>
  Cropped regions, and the three batches that seven of them, numbered by position, make
  with the limit 3.
\<close>

definition cropped :: "string \<Rightarrow> ProcessedRegion" where
  "cropped i = \<lparr> pr_regionId = i, pr_imageBuffer = [], pr_mimeType = ''image/png'' \<rparr>"

definition seven_regions :: "Region list" where
  "seven_regions = map plain_region [''r1'', ''r2'', ''r3'', ''r4'', ''r5'', ''r6'', ''r7'']"

definition three_batches :: "(nat \<times> ProcessedRegion) list list" where
  "three_batches = [[(0, cropped ''r1''), (1, cropped ''r2''), (2, cropped ''r3'')],
                    [(3, cropped ''r4''), (4, cropped ''r5''), (5, cropped ''r6'')],
                    [(6, cropped ''r7'')]]"

text \<open>The result of a region in the calm world.\<close>

definition hello :: "string \<Rightarrow> OCRResult" where
  "hello i = \<lparr> res_regionId = i, res_text = ''hello'', res_processingTime = 100, res_error = None \<rparr>"

section \<open>Properties of the retry utility\<close>

lemma default_delay_small:
  "calculateBackoffDelay 1 DEFAULT_RETRY_CONFIG = 2000"
  "calculateBackoffDelay 2 DEFAULT_RETRY_CONFIG = 4000"
  "calculateBackoffDelay 3 DEFAULT_RETRY_CONFIG = 8000"
  by (simp_all add: calculateBackoffDelay_def DEFAULT_RETRY_CONFIG_def)

lemma default_maxAttempts: "maxAttempts DEFAULT_RETRY_CONFIG = 3"
  by (simp add: DEFAULT_RETRY_CONFIG_def)

lemma pow2_ge8: "3 \<le> k \<Longrightarrow> (8::int) \<le> 2 ^ k"
proof -
  assume "3 \<le> k"
  then have "(2::int) ^ 3 \<le> 2 ^ k" by (intro power_increasing) auto
  then show ?thesis by simp
qed

lemma default_delay_capped:
  assumes "4 \<le> n"
  shows "calculateBackoffDelay n DEFAULT_RETRY_CONFIG = 10000"
proof -
  from assms have "3 \<le> nat (n - 1)" by simp
  then have "(8::int) \<le> 2 ^ nat (n - 1)" by (rule pow2_ge8)
  then show ?thesis
    by (simp add: calculateBackoffDelay_def DEFAULT_RETRY_CONFIG_def)
qed

text \<open>The third attempt is the last one under the default configuration.\<close>

lemma retryLoop_default_3:
  "retryLoop fn DEFAULT_RETRY_CONFIG 3 now le =
     \<lparr> run_result = att_outcome (fn 3), run_settled = now + att_duration (fn 3),
       run_calls = 1, run_sleeps = [], run_retries = [] \<rparr>"
  by (subst retryLoop.simps) (simp add: default_maxAttempts split: sum.splits)

lemma retryLoop_default_2:
  "retryLoop fn DEFAULT_RETRY_CONFIG 2 now le =
     (case att_outcome (fn 2) of
        Inr v \<Rightarrow> \<lparr> run_result = Inr v, run_settled = now + att_duration (fn 2),
                   run_calls = 1, run_sleeps = [], run_retries = [] \<rparr>
      | Inl e2 \<Rightarrow>
          if \<not> isRetryableError e2 DEFAULT_RETRY_CONFIG then
            \<lparr> run_result = Inl e2, run_settled = now + att_duration (fn 2),
              run_calls = 1, run_sleeps = [], run_retries = [] \<rparr>
          else
            \<lparr> run_result = att_outcome (fn 3),
              run_settled = now + att_duration (fn 2) + 4000 + att_duration (fn 3),
              run_calls = 2, run_sleeps = [4000],
              run_retries = [(now + att_duration (fn 2), 2, e2)] \<rparr>)"
  by (subst retryLoop.simps)
     (simp add: default_maxAttempts default_delay_small retryLoop_default_3 Let_def split: sum.splits)

text \<open>
  A run under the default configuration, by the outcomes of the (at most three) calls.
\<close>

lemma retryWithBackoff_default:
  "retryWithBackoff fn DEFAULT_RETRY_CONFIG =
     (case att_outcome (fn 1) of
        Inr v \<Rightarrow> \<lparr> run_result = Inr v, run_settled = att_duration (fn 1),
                   run_calls = 1, run_sleeps = [], run_retries = [] \<rparr>
      | Inl e1 \<Rightarrow>
          if \<not> isRetryableError e1 DEFAULT_RETRY_CONFIG then
            \<lparr> run_result = Inl e1, run_settled = att_duration (fn 1),
              run_calls = 1, run_sleeps = [], run_retries = [] \<rparr>
          else
            (case att_outcome (fn 2) of
               Inr v \<Rightarrow>
                 \<lparr> run_result = Inr v,
                   run_settled = att_duration (fn 1) + 2000 + att_duration (fn 2),
                   run_calls = 2, run_sleeps = [2000],
                   run_retries = [(att_duration (fn 1), 1, e1)] \<rparr>
             | Inl e2 \<Rightarrow>
                 if \<not> isRetryableError e2 DEFAULT_RETRY_CONFIG then
                   \<lparr> run_result = Inl e2,
                     run_settled = att_duration (fn 1) + 2000 + att_duration (fn 2),
                     run_calls = 2, run_sleeps = [2000],
                     run_retries = [(att_duration (fn 1), 1, e1)] \<rparr>
                 else
                   \<lparr> run_result = att_outcome (fn 3),
                     run_settled = att_duration (fn 1) + 2000 + att_duration (fn 2) + 4000
                                   + att_duration (fn 3),
                     run_calls = 3, run_sleeps = [2000, 4000],
                     run_retries = [(att_duration (fn 1), 1, e1),
                                    (att_duration (fn 1) + 2000 + att_duration (fn 2), 2, e2)] \<rparr>))"
  unfolding retryWithBackoff_def
  by (subst retryLoop.simps)
     (simp add: default_maxAttempts default_delay_small retryLoop_default_2 Let_def split: sum.splits)

text \<open>
  C3. Under the default configuration the delay before retry \<open>n\<close> (\<open>n \<ge> 1\<close>) is
  \<open>min (2000 * 2 ^ (n - 1)) 10000\<close>: 2000, 4000, 8000, and 10000 from the fourth on, so
  never above 10000. A run whose first two calls fail with a retryable error sleeps
  2000 ms and then 4000 ms, calls the operation a third and last time and settles as that
  call does, after the three durations and the two sleeps.
\<close>

theorem backoff_default_sequence:
  "calculateBackoffDelay 1 DEFAULT_RETRY_CONFIG = 2000 \<and>
   calculateBackoffDelay 2 DEFAULT_RETRY_CONFIG = 4000 \<and>
   calculateBackoffDelay 3 DEFAULT_RETRY_CONFIG = 8000 \<and>
   (1 \<le> n \<longrightarrow>
      calculateBackoffDelay n DEFAULT_RETRY_CONFIG = min (2000 * 2 ^ nat (n - 1)) 10000 \<and>
      calculateBackoffDelay n DEFAULT_RETRY_CONFIG \<le> 10000) \<and>
   (4 \<le> n \<longrightarrow> calculateBackoffDelay n DEFAULT_RETRY_CONFIG = 10000) \<and>
   (att_outcome (fn 1) = Inl e1 \<and> isRetryableError e1 DEFAULT_RETRY_CONFIG \<and>
    att_outcome (fn 2) = Inl e2 \<and> isRetryableError e2 DEFAULT_RETRY_CONFIG \<longrightarrow>
      run_sleeps (retryWithBackoff fn DEFAULT_RETRY_CONFIG) = [2000, 4000] \<and>
      run_calls (retryWithBackoff fn DEFAULT_RETRY_CONFIG) = 3 \<and>
      run_result (retryWithBackoff fn DEFAULT_RETRY_CONFIG) = att_outcome (fn 3) \<and>
      run_settled (retryWithBackoff fn DEFAULT_RETRY_CONFIG) =
        att_duration (fn 1) + 2000 + att_duration (fn 2) + 4000 + att_duration (fn 3))"
proof (intro conjI impI)
  show "calculateBackoffDelay 1 DEFAULT_RETRY_CONFIG = 2000"
    and "calculateBackoffDelay 2 DEFAULT_RETRY_CONFIG = 4000"
    and "calculateBackoffDelay 3 DEFAULT_RETRY_CONFIG = 8000"
    by (rule default_delay_small)+
  show "calculateBackoffDelay n DEFAULT_RETRY_CONFIG = min (2000 * 2 ^ nat (n - 1)) 10000"
    by (simp add: calculateBackoffDelay_def DEFAULT_RETRY_CONFIG_def)
  show "calculateBackoffDelay n DEFAULT_RETRY_CONFIG \<le> 10000"
    by (simp add: calculateBackoffDelay_def DEFAULT_RETRY_CONFIG_def)
  show "calculateBackoffDelay n DEFAULT_RETRY_CONFIG = 10000" if "4 \<le> n"
    using that by (rule default_delay_capped)
next
  assume h: "att_outcome (fn 1) = Inl e1 \<and> isRetryableError e1 DEFAULT_RETRY_CONFIG \<and>
    att_outcome (fn 2) = Inl e2 \<and> isRetryableError e2 DEFAULT_RETRY_CONFIG"
  then have r: "retryWithBackoff fn DEFAULT_RETRY_CONFIG =
      \<lparr> run_result = att_outcome (fn 3),
        run_settled = att_duration (fn 1) + 2000 + att_duration (fn 2) + 4000 + att_duration (fn 3),
        run_calls = 3, run_sleeps = [2000, 4000],
        run_retries = [(att_duration (fn 1), 1, e1),
                       (att_duration (fn 1) + 2000 + att_duration (fn 2), 2, e2)] \<rparr>"
    by (simp add: retryWithBackoff_default)
  show "run_sleeps (retryWithBackoff fn DEFAULT_RETRY_CONFIG) = [2000, 4000]"
    by (simp add: r)
  show "run_calls (retryWithBackoff fn DEFAULT_RETRY_CONFIG) = 3"
    by (simp add: r)
  show "run_result (retryWithBackoff fn DEFAULT_RETRY_CONFIG) = att_outcome (fn 3)"
    by (simp add: r)
  show "run_settled (retryWithBackoff fn DEFAULT_RETRY_CONFIG) =
        att_duration (fn 1) + 2000 + att_duration (fn 2) + 4000 + att_duration (fn 3)"
    by (simp add: r)
qed

theorem backoff_default_sequence_witness:
  "(1::int) \<le> 5 \<and> (4::int) \<le> 5 \<and>
   calculateBackoffDelay 5 DEFAULT_RETRY_CONFIG = 10000 \<and>
   isRetryableError (Thrown \<lparr> err_code = None, err_message = Some ''RESOURCE_EXHAUSTED'',
                               err_retryable = Undefined \<rparr>) DEFAULT_RETRY_CONFIG \<and>
   run_sleeps (retryWithBackoff flaky_twice DEFAULT_RETRY_CONFIG) = [2000, 4000] \<and>
   run_calls (retryWithBackoff flaky_twice DEFAULT_RETRY_CONFIG) = 3 \<and>
   run_result (retryWithBackoff flaky_twice DEFAULT_RETRY_CONFIG) = Inr ''text'' \<and>
   run_settled (retryWithBackoff flaky_twice DEFAULT_RETRY_CONFIG) = 6300"
proof -
  let ?e = "Thrown \<lparr> err_code = None, err_message = Some ''RESOURCE_EXHAUSTED'',
                      err_retryable = Undefined \<rparr>"
  have retr: "isRetryableError ?e DEFAULT_RETRY_CONFIG"
    by (simp add: isRetryableError_def DEFAULT_RETRY_CONFIG_def or_default_def)
  have o: "att_outcome (flaky_twice 1) = Inl ?e" "att_outcome (flaky_twice 2) = Inl ?e"
    "att_outcome (flaky_twice 3) = Inr ''text''"
    "att_duration (flaky_twice 1) = 100" "att_duration (flaky_twice 2) = 100"
    "att_duration (flaky_twice 3) = 100"
    by (simp_all add: flaky_twice_def)
  from backoff_default_sequence [of 5 flaky_twice ?e ?e] retr o
  show ?thesis by simp
qed

lemma retryLoop_fail_retry:
  assumes "attempt < maxAttempts config" "att_outcome (fn attempt) = Inl e" "isRetryableError e config"
  shows "retryLoop fn config attempt now le =
     (let delay = calculateBackoffDelay attempt config;
          t = now + att_duration (fn attempt);
          r = retryLoop fn config (attempt + 1) (t + nat delay) e
      in r \<lparr> run_calls := run_calls r + 1,
             run_sleeps := delay # run_sleeps r,
             run_retries := (t, attempt, e) # run_retries r \<rparr>)"
  using assms by (subst retryLoop.simps) simp

lemma retryLoop_fail_stop:
  assumes "attempt \<le> maxAttempts config" "att_outcome (fn attempt) = Inl e"
    "\<not> isRetryableError e config"
  shows "retryLoop fn config attempt now le =
     \<lparr> run_result = Inl e, run_settled = now + att_duration (fn attempt),
       run_calls = 1, run_sleeps = [], run_retries = [] \<rparr>"
  using assms by (subst retryLoop.simps) simp

lemma retryLoop_stops_at_nonretryable:
  "attempt \<le> k \<Longrightarrow> k < attempt + int (run_calls (retryLoop fn config attempt now le)) \<Longrightarrow>
   att_outcome (fn k) = Inl e \<Longrightarrow> \<not> isRetryableError e config \<Longrightarrow>
   run_result (retryLoop fn config attempt now le) = Inl e \<and>
   attempt + int (run_calls (retryLoop fn config attempt now le)) = k + 1"
proof (induction fn config attempt now le rule: retryLoop.induct)
  case (1 fn config attempt now lastError)
  show ?case
  proof (cases "attempt \<le> maxAttempts config")
    case False
    with "1.prems" show ?thesis by (simp add: retryLoop.simps [of fn config attempt])
  next
    case le: True
    show ?thesis
    proof (cases "att_outcome (fn attempt)")
      case (Inr v)
      with le "1.prems" show ?thesis
        by (auto simp: retryLoop.simps [of fn config attempt])
    next
      case (Inl error)
      show ?thesis
      proof (cases "attempt \<ge> maxAttempts config \<or> \<not> isRetryableError error config")
        case True
        with le Inl "1.prems" show ?thesis
          by (auto simp: retryLoop.simps [of fn config attempt])
      next
        case False
        let ?r = "retryLoop fn config (attempt + 1)
                    (now + att_duration (fn attempt) + nat (calculateBackoffDelay attempt config)) error"
        have unf: "retryLoop fn config attempt now lastError =
            ?r \<lparr> run_calls := run_calls ?r + 1,
                 run_sleeps := calculateBackoffDelay attempt config # run_sleeps ?r,
                 run_retries := (now + att_duration (fn attempt), attempt, error) # run_retries ?r \<rparr>"
          using False Inl retryLoop_fail_retry [of attempt config fn error now lastError]
          by (simp add: Let_def)
        from False Inl "1.prems" have "attempt \<noteq> k" by auto
        with "1.prems" have k: "attempt + 1 \<le> k" by simp
        from "1.prems"(2) have k2: "k < attempt + 1 + int (run_calls ?r)"
          by (simp add: unf)
        from "1.IH" [OF le Inl False refl refl k k2 "1.prems"(3,4)]
        show ?thesis by (simp add: unf)
      qed
    qed
  qed
qed

text \<open>
  C4. An error whose \<^verbatim>\<open>retryable\<close> is explicitly \<^verbatim>\<open>false\<close> is not retryable and one
  whose \<^verbatim>\<open>retryable\<close> is explicitly \<^verbatim>\<open>true\<close> is, whatever the markers, the code and
  the message are. If any call of the operation rejects with an explicit \<^verbatim>\<open>false\<close>, the
  run rejects with that same error and that call was the last one; if it is the first
  call, there is no sleep and no \<^verbatim>\<open>onRetry\<close>.
\<close>

theorem explicit_retryable_flag:
  "(err_retryable e = JBool False \<longrightarrow> \<not> isRetryableError (Thrown e) config) \<and>
   (err_retryable e = JBool True \<longrightarrow> isRetryableError (Thrown e) config) \<and>
   (err_retryable e = JBool False \<and> 1 \<le> k \<and>
    k \<le> int (run_calls (retryWithBackoff fn config)) \<and> att_outcome (fn k) = Inl (Thrown e) \<longrightarrow>
      run_result (retryWithBackoff fn config) = Inl (Thrown e) \<and>
      int (run_calls (retryWithBackoff fn config)) = k) \<and>
   (err_retryable e = JBool False \<and> 1 \<le> maxAttempts config \<and>
    att_outcome (fn 1) = Inl (Thrown e) \<longrightarrow>
      retryWithBackoff fn config =
        \<lparr> run_result = Inl (Thrown e), run_settled = att_duration (fn 1),
          run_calls = 1, run_sleeps = [], run_retries = [] \<rparr>)"
proof (intro conjI impI)
  assume "err_retryable e = JBool False"
  then show "\<not> isRetryableError (Thrown e) config" by (simp add: isRetryableError_def)
next
  assume "err_retryable e = JBool True"
  then show "isRetryableError (Thrown e) config" by (simp add: isRetryableError_def)
next
  assume h: "err_retryable e = JBool False \<and> 1 \<le> k \<and>
    k \<le> int (run_calls (retryWithBackoff fn config)) \<and> att_outcome (fn k) = Inl (Thrown e)"
  then have nr: "\<not> isRetryableError (Thrown e) config" by (simp add: isRetryableError_def)
  from h have "1 \<le> k" "k < 1 + int (run_calls (retryLoop fn config 1 0 Falsy))"
    "att_outcome (fn k) = Inl (Thrown e)"
    by (simp_all add: retryWithBackoff_def)
  from retryLoop_stops_at_nonretryable [OF this nr]
  show "run_result (retryWithBackoff fn config) = Inl (Thrown e)"
    and "int (run_calls (retryWithBackoff fn config)) = k"
    by (simp_all add: retryWithBackoff_def)
next
  assume h: "err_retryable e = JBool False \<and> 1 \<le> maxAttempts config \<and>
    att_outcome (fn 1) = Inl (Thrown e)"
  then have nr: "\<not> isRetryableError (Thrown e) config" by (simp add: isRetryableError_def)
  from h nr show "retryWithBackoff fn config =
        \<lparr> run_result = Inl (Thrown e), run_settled = att_duration (fn 1),
          run_calls = 1, run_sleeps = [], run_retries = [] \<rparr>"
    by (simp add: retryWithBackoff_def retryLoop_fail_stop)
qed

theorem explicit_retryable_flag_witness:
  "err_retryable marked_not_retryable = JBool False \<and>
   str_includes ''UNAVAILABLE'' ''UNAVAILABLE'' \<and>
   (1::int) \<le> maxAttempts DEFAULT_RETRY_CONFIG \<and>
   (1::int) \<le> int (run_calls (retryWithBackoff always_fails DEFAULT_RETRY_CONFIG)) \<and>
   att_outcome (always_fails 1) = Inl (Thrown marked_not_retryable) \<and>
   retryWithBackoff always_fails DEFAULT_RETRY_CONFIG =
     \<lparr> run_result = Inl (Thrown marked_not_retryable), run_settled = 50,
       run_calls = 1, run_sleeps = [], run_retries = [] \<rparr> \<and>
   \<not> isRetryableError (Thrown marked_not_retryable) DEFAULT_RETRY_CONFIG \<and>
   err_retryable unmarked_retryable = JBool True \<and>
   isRetryableError (Thrown unmarked_retryable) DEFAULT_RETRY_CONFIG"
proof -
  have f: "err_retryable marked_not_retryable = JBool False"
    by (simp add: marked_not_retryable_def)
  have t: "err_retryable unmarked_retryable = JBool True"
    by (simp add: unmarked_retryable_def)
  have m: "(1::int) \<le> maxAttempts DEFAULT_RETRY_CONFIG" by (simp add: default_maxAttempts)
  have o: "att_outcome (always_fails 1) = Inl (Thrown marked_not_retryable)"
    "att_duration (always_fails 1) = 50"
    by (simp_all add: always_fails_def)
  from explicit_retryable_flag [of marked_not_retryable DEFAULT_RETRY_CONFIG 1 always_fails]
    explicit_retryable_flag [of unmarked_retryable DEFAULT_RETRY_CONFIG 1 always_fails]
    f t m o
  show ?thesis by simp
qed


section \<open>Properties of the validation\<close>

lemma validate_loop_concat:
  "validate_loop w h errs regions = errs @ concat (map (region_checks w h) regions)"
  by (induction regions arbitrary: errs) simp_all

lemma region_checks_empty_iff:
  "region_checks w h r = [] \<longleftrightarrow>
     0 \<le> reg_x r \<and> 0 \<le> reg_y r \<and> reg_x r + reg_width r \<le> w \<and>
     reg_y r + reg_height r \<le> h \<and> 10 \<le> reg_width r \<and> 10 \<le> reg_height r"
  by (auto simp: region_checks_def)

lemma length_region_checks:
  "length (region_checks w h r) =
     (if reg_x r < 0 \<or> reg_y r < 0 then 1 else 0) +
     (if reg_x r + reg_width r > w then 1 else 0) +
     (if reg_y r + reg_height r > h then 1 else 0) +
     (if reg_width r < 10 \<or> reg_height r < 10 then 1 else 0)"
  by (simp add: region_checks_def)

lemma negative_message:
  "reg_x r < 0 \<or> reg_y r < 0 \<Longrightarrow>
   ''Region '' @ reg_id r @ '' has negative coordinates'' \<in> set (region_checks w h r)"
  by (simp add: region_checks_def)

text \<open>
  C6. For an image whose dimensions can be read, the errors of \<^verbatim>\<open>validateRegions\<close> are
  the messages of the regions one after the other, a region contributing one message
  for each of the four rules it violates (negative x or y; x + width beyond the image
  width; y + height beyond the image height; width or height below 10). \<^verbatim>\<open>valid\<close> holds
  exactly when no message was collected, which is exactly when every region satisfies
  all four rules. A region inside the image that is 10 wide and 10 high adds no
  message; a region with a negative x or y adds the message about negative
  coordinates, and the result is not valid.
\<close>

theorem validateRegions_collects:
  "w \<noteq> 0 \<and> h \<noteq> 0 \<longrightarrow>
     errors (validateRegions (Some (Some w, Some h)) regions) =
       concat (map (region_checks w h) regions) \<and>
     (\<forall>r. length (region_checks w h r) =
        (if reg_x r < 0 \<or> reg_y r < 0 then 1 else 0) +
        (if reg_x r + reg_width r > w then 1 else 0) +
        (if reg_y r + reg_height r > h then 1 else 0) +
        (if reg_width r < 10 \<or> reg_height r < 10 then 1 else 0)) \<and>
     (valid (validateRegions (Some (Some w, Some h)) regions) \<longleftrightarrow>
        errors (validateRegions (Some (Some w, Some h)) regions) = []) \<and>
     (valid (validateRegions (Some (Some w, Some h)) regions) \<longleftrightarrow>
        (\<forall>r \<in> set regions.
           0 \<le> reg_x r \<and> 0 \<le> reg_y r \<and> reg_x r + reg_width r \<le> w \<and>
           reg_y r + reg_height r \<le> h \<and> 10 \<le> reg_width r \<and> 10 \<le> reg_height r)) \<and>
     (\<forall>r. 0 \<le> reg_x r \<and> 0 \<le> reg_y r \<and> reg_x r + reg_width r \<le> w \<and>
          reg_y r + reg_height r \<le> h \<and> reg_width r = 10 \<and> reg_height r = 10 \<longrightarrow>
          region_checks w h r = []) \<and>
     (\<forall>r \<in> set regions. reg_x r < 0 \<or> reg_y r < 0 \<longrightarrow>
          ''Region '' @ reg_id r @ '' has negative coordinates''
            \<in> set (errors (validateRegions (Some (Some w, Some h)) regions)) \<and>
          \<not> valid (validateRegions (Some (Some w, Some h)) regions))"
proof (intro impI)
  assume wh: "w \<noteq> 0 \<and> h \<noteq> 0"
  let ?v = "validateRegions (Some (Some w, Some h)) regions"
  have e: "errors ?v = concat (map (region_checks w h) regions)"
    using wh by (simp add: validateRegions_def validate_loop_concat)
  have v: "valid ?v \<longleftrightarrow> errors ?v = []"
    using wh by (simp add: validateRegions_def Let_def)
  have all: "errors ?v = [] \<longleftrightarrow>
      (\<forall>r \<in> set regions.
           0 \<le> reg_x r \<and> 0 \<le> reg_y r \<and> reg_x r + reg_width r \<le> w \<and>
           reg_y r + reg_height r \<le> h \<and> 10 \<le> reg_width r \<and> 10 \<le> reg_height r)"
    by (simp add: e region_checks_empty_iff)
  have neg: "\<forall>r \<in> set regions. reg_x r < 0 \<or> reg_y r < 0 \<longrightarrow>
          ''Region '' @ reg_id r @ '' has negative coordinates'' \<in> set (errors ?v) \<and> \<not> valid ?v"
  proof (intro ballI impI)
    fix r assume r: "r \<in> set regions" and n: "reg_x r < 0 \<or> reg_y r < 0"
    from n have "''Region '' @ reg_id r @ '' has negative coordinates'' \<in> set (region_checks w h r)"
      by (rule negative_message)
    with r have m: "''Region '' @ reg_id r @ '' has negative coordinates'' \<in> set (errors ?v)"
      unfolding e by auto
    then have "errors ?v \<noteq> []" by auto
    with v m
    show "''Region '' @ reg_id r @ '' has negative coordinates'' \<in> set (errors ?v) \<and> \<not> valid ?v"
      by simp
  qed
  show "errors ?v = concat (map (region_checks w h) regions) \<and>
     (\<forall>r. length (region_checks w h r) =
        (if reg_x r < 0 \<or> reg_y r < 0 then 1 else 0) +
        (if reg_x r + reg_width r > w then 1 else 0) +
        (if reg_y r + reg_height r > h then 1 else 0) +
        (if reg_width r < 10 \<or> reg_height r < 10 then 1 else 0)) \<and>
     (valid ?v \<longleftrightarrow> errors ?v = []) \<and>
     (valid ?v \<longleftrightarrow>
        (\<forall>r \<in> set regions.
           0 \<le> reg_x r \<and> 0 \<le> reg_y r \<and> reg_x r + reg_width r \<le> w \<and>
           reg_y r + reg_height r \<le> h \<and> 10 \<le> reg_width r \<and> 10 \<le> reg_height r)) \<and>
     (\<forall>r. 0 \<le> reg_x r \<and> 0 \<le> reg_y r \<and> reg_x r + reg_width r \<le> w \<and>
          reg_y r + reg_height r \<le> h \<and> reg_width r = 10 \<and> reg_height r = 10 \<longrightarrow>
          region_checks w h r = []) \<and>
     (\<forall>r \<in> set regions. reg_x r < 0 \<or> reg_y r < 0 \<longrightarrow>
          ''Region '' @ reg_id r @ '' has negative coordinates'' \<in> set (errors ?v) \<and> \<not> valid ?v)"
    using e v all neg by (simp add: length_region_checks region_checks_empty_iff)
qed

theorem validateRegions_collects_witness:
  "(100::int) \<noteq> 0 \<and>
   errors (validateRegions (Some (Some 100, Some 100)) [corner_region, negative_region, small_region])
     = [''Region b has negative coordinates'', ''Region c is too small (minimum 10x10 pixels)''] \<and>
   \<not> valid (validateRegions (Some (Some 100, Some 100)) [corner_region, negative_region, small_region]) \<and>
   negative_region \<in> set [corner_region, negative_region, small_region] \<and>
   reg_x negative_region < 0 \<and>
   0 \<le> reg_x corner_region \<and> reg_x corner_region + reg_width corner_region \<le> 100 \<and>
   reg_width corner_region = 10 \<and> reg_height corner_region = 10 \<and>
   region_checks 100 100 corner_region = [] \<and>
   valid (validateRegions (Some (Some 100, Some 100)) [corner_region])"
proof -
  have c: "region_checks 100 100 corner_region = []"
    by (simp add: region_checks_def corner_region_def)
  have n: "region_checks 100 100 negative_region = [''Region b has negative coordinates'']"
    by (simp add: region_checks_def negative_region_def)
  have s: "region_checks 100 100 small_region = [''Region c is too small (minimum 10x10 pixels)'']"
    by (simp add: region_checks_def small_region_def)
  have f: "reg_x negative_region < 0" "0 \<le> reg_x corner_region"
    "reg_x corner_region + reg_width corner_region \<le> 100"
    "reg_width corner_region = 10" "reg_height corner_region = 10"
    by (simp_all add: negative_region_def corner_region_def)
  from validateRegions_collects [of 100 100 "[corner_region, negative_region, small_region]"]
    validateRegions_collects [of 100 100 "[corner_region]"] c n s f
  show ?thesis by simp
qed

section \<open>Properties of the vision client\<close>

text \<open>
  What the \<^verbatim>\<open>catch\<close> block of the service throws for an underlying error with a
  non-empty message: the code is the underlying code when that is a non-empty string and
  \<^verbatim>\<open>GEMINI_ERROR\<close> otherwise, and \<^verbatim>\<open>retryable\<close> is the boolean saying whether the
  message contains one of the four markers.
\<close>

lemma processOCR_catch_with_message:
  "sdk_message err = Some m \<Longrightarrow> m \<noteq> [] \<Longrightarrow>
   processOCR_catch err =
     \<lparr> err_code = Some (case sdk_code err of None \<Rightarrow> ''GEMINI_ERROR''
                         | Some c \<Rightarrow> if c = [] then ''GEMINI_ERROR'' else c),
       err_message = Some m,
       err_retryable =
         JBool (str_includes m ''RESOURCE_EXHAUSTED'' \<or> str_includes m ''DEADLINE_EXCEEDED'' \<or>
                str_includes m ''UNAVAILABLE'' \<or> str_includes m ''INTERNAL'') \<rparr>"
  by (simp add: processOCR_catch_def or_default_def gemini_retryableErrors_def split: option.splits)

lemma processOCR_rejects_with_catch:
  "d \<le> timeout \<Longrightarrow>
   GeminiService_processOCR timeout \<lparr> call_duration = d, call_outcome = Inl err \<rparr> =
     \<lparr> att_duration = d, att_outcome = Inl (Thrown (processOCR_catch err)) \<rparr>"
  by (simp add: GeminiService_processOCR_def race_def)

text \<open>
  C8, at a failing input. The underlying error has no message and the code
  \<^verbatim>\<open>UNAVAILABLE\<close>. The thrown object carries the code and the default message, but its
  \<^verbatim>\<open>retryable\<close> is \<^verbatim>\<open>undefined\<close>, the value of \<^verbatim>\<open>err.message && ...\<close>, and not
  \<^verbatim>\<open>false\<close>. So the check of \<^verbatim>\<open>retryWithBackoff\<close> for an explicit \<^verbatim>\<open>false\<close> does not
  apply, the marker in the code makes the error retryable, and the backend is called
  three times.
\<close>

theorem processOCR_no_message_not_false:
  "processOCR_catch sdk_no_message =
     \<lparr> err_code = Some ''UNAVAILABLE'', err_message = Some ''Failed to process image with Gemini'',
       err_retryable = Undefined \<rparr> \<and>
   err_retryable (processOCR_catch sdk_no_message) \<noteq> JBool False \<and>
   isRetryableError (Thrown (processOCR_catch sdk_no_message)) DEFAULT_RETRY_CONFIG \<and>
   run_calls (retryWithBackoff
     (\<lambda>k. GeminiService_processOCR 30000 \<lparr> call_duration = 10, call_outcome = Inl sdk_no_message \<rparr>)
     DEFAULT_RETRY_CONFIG) = 3"
proof -
  have c: "processOCR_catch sdk_no_message =
      \<lparr> err_code = Some ''UNAVAILABLE'', err_message = Some ''Failed to process image with Gemini'',
        err_retryable = Undefined \<rparr>"
    by (simp add: processOCR_catch_def sdk_no_message_def or_default_def)
  have r: "isRetryableError (Thrown (processOCR_catch sdk_no_message)) DEFAULT_RETRY_CONFIG"
    by (simp add: c isRetryableError_def DEFAULT_RETRY_CONFIG_def or_default_def)
  have o: "\<And>k. att_outcome (GeminiService_processOCR 30000
                \<lparr> call_duration = 10, call_outcome = Inl sdk_no_message \<rparr>)
             = Inl (Thrown (processOCR_catch sdk_no_message))"
    by (simp add: processOCR_rejects_with_catch)
  have n: "run_calls (retryWithBackoff
     (\<lambda>k. GeminiService_processOCR 30000 \<lparr> call_duration = 10, call_outcome = Inl sdk_no_message \<rparr>)
     DEFAULT_RETRY_CONFIG) = 3"
    using r by (simp add: retryWithBackoff_default o)
  from c r n show ?thesis by simp
qed


section \<open>Properties of the splitting loop\<close>

lemma js_slice_step:
  assumes "0 < k"
  shows "js_slice xs (Num (int i)) (Num (int i + k)) = take (nat k) (drop i xs)"
proof (cases "i \<le> length xs")
  case True
  then have "take (nat (min (int i + k) (int (length xs)) - int i)) (drop i xs) = take (nat k) (drop i xs)"
    using assms by (cases "int i + k \<le> int (length xs)") (auto simp: min_def)
  with True assms show ?thesis
    by (simp add: js_slice_def Let_def min_def)
next
  case False
  then show ?thesis by (simp add: js_slice_def Let_def)
qed

text \<open>With a positive limit the loop ends and yields the consecutive pieces.\<close>

lemma split_loop_pos:
  assumes "0 < k"
  shows "split_loop (Num k) xs (Num (int i)) acc = Some (acc @ chunks (nat k) (drop i xs))"
proof (induction "length xs - i" arbitrary: i acc rule: less_induct)
  case less
  show ?case
  proof (cases "i < length xs")
    case False
    then have "chunks (nat k) (drop i xs) = []" by (simp add: chunks.simps)
    with False show ?thesis by (subst split_loop.simps) simp
  next
    case True
    let ?j = "i + nat k"
    have j: "int ?j = int i + k" using assms by simp
    have "length xs - ?j < length xs - i" using True assms by simp
    from less [OF this]
    have ih: "split_loop (Num k) xs (Num (int ?j)) (acc @ [take (nat k) (drop i xs)]) =
        Some ((acc @ [take (nat k) (drop i xs)]) @ chunks (nat k) (drop ?j xs))" .
    have ch: "chunks (nat k) (drop i xs) = take (nat k) (drop i xs) # chunks (nat k) (drop ?j xs)"
      using True assms by (subst chunks.simps) (simp add: add.commute)
    have "split_loop (Num k) xs (Num (int i)) acc =
          split_loop (Num k) xs (Num (int i + k)) (acc @ [js_slice xs (Num (int i)) (Num (int i + k))])"
      using True by (subst split_loop.simps) simp
    also have "\<dots> = split_loop (Num k) xs (Num (int ?j)) (acc @ [take (nat k) (drop i xs)])"
      using assms by (simp only: js_slice_step j)
    also have "\<dots> = Some ((acc @ [take (nat k) (drop i xs)]) @ chunks (nat k) (drop ?j xs))"
      by (rule ih)
    finally show ?thesis by (simp add: ch)
  qed
qed

lemma split_batches_pos: "0 < k \<Longrightarrow> split_batches (Num k) xs = Some (chunks (nat k) xs)"
  using split_loop_pos [of k xs 0 "[]"] by (simp add: split_batches_def)

text \<open>
  With \<^verbatim>\<open>NaN\<close> the loop runs once (\<open>0 < length\<close>), pushes the empty slice
  \<^verbatim>\<open>slice(0, NaN)\<close> and stops, since \<^verbatim>\<open>NaN < length\<close> is false.
\<close>

lemma split_batches_NaN: "split_batches NaN xs = Some (if xs = [] then [] else [[]])"
  unfolding split_batches_def
  by (subst split_loop.simps, subst split_loop.simps) (simp add: js_slice_def)

lemma split_batches_Nil: "split_batches limit [] = Some []"
  unfolding split_batches_def by (subst split_loop.simps) simp

text \<open>With a limit of 0 or below the loop never ends on a non-empty list.\<close>

lemma split_loop_diverges_aux:
  assumes "split_loop limit xs i acc = Some r"
  shows "\<forall>k j. limit = Num k \<longrightarrow> k \<le> 0 \<longrightarrow> i = Num j \<longrightarrow> j < int (length xs) \<longrightarrow> False"
proof (rule split_loop.raw_induct [OF _ assms])
  fix sl :: "jsnum \<Rightarrow> 'a list \<Rightarrow> jsnum \<Rightarrow> 'a list list \<Rightarrow> 'a list list option"
  fix limit xs i acc r
  assume IH: "\<And>a b c d y. sl a b c d = Some y \<Longrightarrow>
        \<forall>k j. a = Num k \<longrightarrow> k \<le> 0 \<longrightarrow> c = Num j \<longrightarrow> j < int (length b) \<longrightarrow> False"
    and step: "(if js_less i (Num (int (length xs)))
          then sl limit xs (js_add i limit) (acc @ [js_slice xs i (js_add i limit)])
          else Some acc) = Some r"
  show "\<forall>k j. limit = Num k \<longrightarrow> k \<le> 0 \<longrightarrow> i = Num j \<longrightarrow> j < int (length xs) \<longrightarrow> False"
  proof (intro allI impI)
    fix k j
    assume h: "limit = Num k" "k \<le> 0" "i = Num j" "j < int (length xs)"
    with step have eq: "sl (Num k) xs (Num (j + k)) (acc @ [js_slice xs (Num j) (Num (j + k))]) = Some r"
      by simp
    from IH [OF eq] h show False by auto
  qed
qed

lemma split_batches_nonpos: "k \<le> 0 \<Longrightarrow> xs \<noteq> [] \<Longrightarrow> split_batches (Num k) xs = None"
proof (rule ccontr)
  assume a: "k \<le> 0" "xs \<noteq> []" and "split_batches (Num k) xs \<noteq> None"
  then obtain r where "split_loop (Num k) xs (Num 0) [] = Some r"
    by (auto simp: split_batches_def)
  from split_loop_diverges_aux [OF this] a show False by auto
qed

lemma concat_chunks: "0 < n \<Longrightarrow> concat (chunks n xs) = xs"
proof (induction n xs rule: chunks.induct)
  case (1 n xs)
  then show ?case by (subst chunks.simps) auto
qed

lemma chunks_sizes: "b \<in> set (chunks n xs) \<Longrightarrow> b \<noteq> [] \<and> length b \<le> n"
proof (induction n xs rule: chunks.induct)
  case (1 n xs)
  show ?case
  proof (cases "n = 0 \<or> xs = []")
    case True
    with "1.prems" show ?thesis by (simp add: chunks.simps [of n xs])
  next
    case ne: False
    with "1.prems" have "b = take n xs \<or> b \<in> set (chunks n (drop n xs))"
      by (simp add: chunks.simps [of n xs])
    then show ?thesis using "1.IH" [OF ne] ne by auto
  qed
qed

lemma chunks_full: "b \<in> set (butlast (chunks n xs)) \<Longrightarrow> length b = n"
proof (induction n xs rule: chunks.induct)
  case (1 n xs)
  show ?case
  proof (cases "n = 0 \<or> xs = []")
    case True
    with "1.prems" show ?thesis by (simp add: chunks.simps [of n xs])
  next
    case ne: False
    have ch: "chunks n xs = take n xs # chunks n (drop n xs)"
      using ne by (simp add: chunks.simps [of n xs])
    show ?thesis
    proof (cases "chunks n (drop n xs) = []")
      case True
      with "1.prems" ch show ?thesis by simp
    next
      case False
      then have "drop n xs \<noteq> []" by (auto simp: chunks.simps [of n "drop n xs"])
      then have "n < length xs" by simp
      with "1.prems" ch False "1.IH" [OF ne] show ?thesis by auto
    qed
  qed
qed

lemma div_step: "0 < n \<Longrightarrow> 0 < (m::nat) \<Longrightarrow> (m + n - 1) div n = Suc ((m - 1) div n)"
proof -
  assume n: "0 < n" and m: "0 < m"
  from m have "m + n - 1 = (m - 1) + n" by arith
  moreover from n have "((m - 1) + n) div n = Suc ((m - 1) div n)" by (simp only: div_add_self2)
  ultimately show ?thesis by (simp only:)
qed

lemma length_chunks: "0 < n \<Longrightarrow> length (chunks n xs) = (length xs + n - 1) div n"
proof (induction n xs rule: chunks.induct)
  case (1 n xs)
  show ?case
  proof (cases "xs = []")
    case True
    have "n - 1 < n" using "1.prems" by arith
    then have "(n - 1) div n = 0" by (rule div_less)
    moreover have "chunks n [] = []" by (simp add: chunks.simps [of n "[]"])
    ultimately show ?thesis using True by simp
  next
    case False
    with "1.prems" have ne: "\<not> (n = 0 \<or> xs = [])" by simp
    from False have pos: "0 < length xs" by simp
    have ch: "chunks n xs = take n xs # chunks n (drop n xs)"
      using ne by (simp add: chunks.simps [of n xs])
    have ih: "length (chunks n (drop n xs)) = (length (drop n xs) + n - 1) div n"
      using "1.IH" [OF ne "1.prems"] .
    have goal: "(length xs + n - 1) div n = Suc ((length xs - 1) div n)"
      using "1.prems" pos by (rule div_step)
    show ?thesis
    proof (cases "n \<le> length xs")
      case True
      then have "length (drop n xs) + n - 1 = length xs - 1" by simp
      with ih have "length (chunks n (drop n xs)) = (length xs - 1) div n" by (simp only:)
      with ch goal show ?thesis by (simp only: list.size length_Cons)
    next
      case f: False
      then have "drop n xs = []" by simp
      moreover have "chunks n [] = []" by (simp add: chunks.simps [of n "[]"])
      ultimately have "chunks n (drop n xs) = []" by (simp only:)
      moreover from f pos have "length xs - 1 < n" by arith
      then have "(length xs - 1) div n = 0" by (rule div_less)
      ultimately show ?thesis using ch goal by (simp only: list.size length_Cons)
    qed
  qed
qed


section \<open>Properties of the processing of one region\<close>

text \<open>The service throws objects only, so a run under the default configuration does too.\<close>

lemma gemini_outcome_not_falsy:
  "att_outcome (GeminiService_processOCR timeout c) \<noteq> Inl Falsy"
  by (simp add: GeminiService_processOCR_def Let_def split: sum.splits)

lemma retry_default_not_falsy:
  "run_result (retryWithBackoff (\<lambda>k. GeminiService_processOCR timeout (v k)) DEFAULT_RETRY_CONFIG)
     \<noteq> Inl Falsy"
  using gemini_outcome_not_falsy [of timeout "v 1"] gemini_outcome_not_falsy [of timeout "v 2"]
    gemini_outcome_not_falsy [of timeout "v 3"]
  by (auto simp: retryWithBackoff_default split: sum.splits)

lemma withTimeout_cases:
  "withTimeout p ms msg =
     (if fst p \<le> ms then p
      else (ms, Inl (Thrown \<lparr> err_code = Some ''TIMEOUT'',
                              err_message = Some (case msg of None \<Rightarrow> ''Operation timed out'' | Some m \<Rightarrow> m),
                              err_retryable = JBool True \<rparr>)))"
  by (simp add: withTimeout_def race_def createTimeout_def)

lemma withTimeout_not_falsy: "snd p \<noteq> Inl Falsy \<Longrightarrow> snd (withTimeout p ms msg) \<noteq> Inl Falsy"
  by (simp add: withTimeout_cases)

lemma withTimeout_bound: "fst (withTimeout p ms msg) \<le> ms \<or> fst (withTimeout p ms msg) = fst p"
  by (simp add: withTimeout_cases)

lemma region_result_resolves:
  "awaited \<noteq> Inl Falsy \<Longrightarrow>
   \<exists>r. region_result regionId elapsed awaited = Inr r \<and> res_regionId r = regionId \<and>
       res_processingTime r = elapsed"
  by (cases awaited) (auto simp: region_result_def split: thrown.splits)

text \<open>\<^verbatim>\<open>processRegion\<close> never rejects, and its result carries the id of its region.\<close>

lemma processRegion_resolves:
  "\<exists>r. snd (rr_promise (processRegion w startTime ip)) = Inr r \<and>
       res_regionId r = pr_regionId (snd ip)"
proof -
  let ?run = "retryWithBackoff (\<lambda>k. GeminiService_processOCR (w_timeout w) (w_vision w (fst ip) k))
                DEFAULT_RETRY_CONFIG"
  let ?p = "withTimeout (run_promise ?run) (w_timeout w) (Some ''OCR processing timed out'')"
  have "snd (run_promise ?run) \<noteq> Inl Falsy"
    by (simp add: run_promise_def retry_default_not_falsy)
  then have "snd ?p \<noteq> Inl Falsy" by (rule withTimeout_not_falsy)
  from region_result_resolves [OF this]
  show ?thesis by (simp add: processRegion_def Let_def) blast
qed

lemma processRegion_starts_before_settled:
  "startTime \<le> fst (rr_promise (processRegion w startTime ip))"
  by (simp add: processRegion_def Let_def)

section \<open>Properties of the batches\<close>

lemma first_rejection_none:
  "\<forall>p \<in> set ps. \<exists>v. snd p = Inr v \<Longrightarrow> first_rejection ps = None"
proof (induction ps)
  case Nil
  show ?case by simp
next
  case (Cons p ps)
  obtain t o' where p: "p = (t, o')" by (cases p)
  from Cons.prems p obtain v where "o' = Inr v" by auto
  with Cons p show ?case by simp
qed

lemma resolved_values_all:
  "\<forall>p \<in> set ps. \<exists>v. snd p = Inr v \<Longrightarrow> map Inr (resolved_values ps) = map snd ps"
proof (induction ps)
  case Nil
  show ?case by simp
next
  case (Cons p ps)
  obtain t o' where p: "p = (t, o')" by (cases p)
  from Cons.prems p obtain v where "o' = Inr v" by auto
  with Cons p show ?case by simp
qed

lemma fold_max_ge: "now \<le> fold max ts now \<and> (\<forall>t \<in> set ts. t \<le> fold max ts (now::nat))"
proof (induction ts arbitrary: now)
  case Nil
  show ?case by simp
next
  case (Cons t ts)
  from Cons [of "max t now"] show ?case by (auto simp: max_def split: if_splits)
qed

text \<open>
  A batch as \<^verbatim>\<open>processBatch\<close> runs it: it resolves, not before any of its members, with
  one result per member in the order of the batch.
\<close>

lemma processBatch_resolves:
  fixes batch :: "(nat \<times> ProcessedRegion) list"
  defines "members \<equiv> \<lambda>w now. map (processRegion w now) batch"
  shows "\<exists>rs. promise_all now (map rr_promise (members w now)) =
           (fold max (map (fst \<circ> rr_promise) (members w now)) now, Inr rs) \<and>
         map res_regionId rs = map (pr_regionId \<circ> snd) batch"
proof -
  let ?ps = "map rr_promise (members w now)"
  have all: "\<forall>p \<in> set ?ps. \<exists>v. snd p = Inr v"
  proof
    fix p assume "p \<in> set ?ps"
    then obtain ip where "p = rr_promise (processRegion w now ip)" by (auto simp: members_def)
    with processRegion_resolves [of w now ip] show "\<exists>v. snd p = Inr v" by auto
  qed
  have ids: "map res_regionId (resolved_values ?ps) = map (pr_regionId \<circ> snd) batch"
  proof -
    have "map Inr (resolved_values ?ps) = map snd ?ps" using all by (rule resolved_values_all)
    then have "map (\<lambda>r. (Inr r :: thrown + OCRResult)) (resolved_values ?ps)
        = map (\<lambda>ip. snd (rr_promise (processRegion w now ip))) batch"
      by (simp add: members_def comp_def)
    then have len: "length (resolved_values ?ps) = length batch"
      by (metis length_map)
    show ?thesis
    proof (rule nth_equalityI)
      show "length (map res_regionId (resolved_values ?ps)) = length (map (pr_regionId \<circ> snd) batch)"
        using len by simp
    next
      fix i assume "i < length (map res_regionId (resolved_values ?ps))"
      then have i: "i < length batch" using len by simp
      have "(map (\<lambda>r. (Inr r :: thrown + OCRResult)) (resolved_values ?ps)) ! i
          = (map (\<lambda>ip. snd (rr_promise (processRegion w now ip))) batch) ! i"
        using \<open>map (\<lambda>r. (Inr r :: thrown + OCRResult)) (resolved_values ?ps)
        = map (\<lambda>ip. snd (rr_promise (processRegion w now ip))) batch\<close> by simp
      then have e: "Inr (resolved_values ?ps ! i) = snd (rr_promise (processRegion w now (batch ! i)))"
        using i len by simp
      from processRegion_resolves [of w now "batch ! i"] e
      have "res_regionId (resolved_values ?ps ! i) = pr_regionId (snd (batch ! i))" by auto
      then show "map res_regionId (resolved_values ?ps) ! i = map (pr_regionId \<circ> snd) batch ! i"
        using i len by simp
    qed
  qed
  have "promise_all now ?ps = (fold max (map fst ?ps) now, Inr (resolved_values ?ps))"
    using first_rejection_none [OF all] by (simp add: promise_all_def)
  then show ?thesis using ids by (simp add: comp_def)
qed


section \<open>Properties of the events of a session\<close>

lemma pushed_append: "pushed (xs @ ys) = pushed xs @ pushed ys"
  by (induction xs rule: pushed.induct) simp_all

lemma pushed_map_Push: "pushed (map (\<lambda>r. (t, Push r)) rs) = rs"
  by (induction rs) simp_all

lemma final_status_append: "final_status st (xs @ ys) = final_status (final_status st xs) ys"
  by (induction st xs rule: final_status.induct) simp_all

lemma final_status_pushes:
  "\<forall>ev \<in> set ms. \<exists>t r. ev = (t, Push r) \<Longrightarrow> final_status st ms = st"
  by (induction ms) auto

lemma pushed_filter_main: "pushed (filter is_main evs) = pushed evs"
  by (induction evs rule: pushed.induct) simp_all

lemma final_status_filter_main: "final_status st (filter is_main evs) = final_status st evs"
  by (induction st evs rule: final_status.induct) simp_all

lemma length_pushed_pushes:
  "\<forall>ev \<in> set ms. \<exists>t r. ev = (t, Push r) \<Longrightarrow> length (pushed ms) = length ms"
  by (induction ms) auto

lemma sorted_const_map: "sorted (map (\<lambda>r. (c::nat)) rs)"
  by (induction rs) auto

text \<open>
  What \<^verbatim>\<open>processOCRAsync\<close> itself does once the batches exist: it pushes one result per
  member of each batch, in the order of the batches, and then sets the status to
  \<^verbatim>\<open>completed\<close>; these steps are in the order of time.
\<close>

lemma main_events_batches:
  "\<exists>ms T. main_events now (run_batches w now bs) = ms @ [(T, Finish completed)] \<and>
      (\<forall>ev \<in> set ms. \<exists>t r. ev = (t, Push r)) \<and>
      map res_regionId (pushed ms) = map (pr_regionId \<circ> snd) (concat bs) \<and>
      sorted (map fst (ms @ [(T, Finish completed)])) \<and>
      (\<forall>ev \<in> set (ms @ [(T, Finish completed)]). now \<le> fst ev)"
proof (induction bs arbitrary: now)
  case Nil
  show ?case by simp
next
  case (Cons b bs)
  let ?members = "map (processRegion w now) b"
  let ?Tb = "fold max (map (fst \<circ> rr_promise) ?members) now"
  from processBatch_resolves [of now w b] obtain rs where
    pa: "promise_all now (map rr_promise ?members) = (?Tb, Inr rs)"
    and ids: "map res_regionId rs = map (pr_regionId \<circ> snd) b"
    by auto
  have ge: "now \<le> ?Tb" using fold_max_ge [of now "map (fst \<circ> rr_promise) ?members"] by simp
  from Cons [of ?Tb] obtain ms T where
    ih: "main_events ?Tb (run_batches w ?Tb bs) = ms @ [(T, Finish completed)]"
    and pushes: "\<forall>ev \<in> set ms. \<exists>t r. ev = (t, Push r)"
    and ihids: "map res_regionId (pushed ms) = map (pr_regionId \<circ> snd) (concat bs)"
    and srt: "sorted (map fst (ms @ [(T, Finish completed)]))"
    and lb: "\<forall>ev \<in> set (ms @ [(T, Finish completed)]). ?Tb \<le> fst ev"
    by blast
  let ?ms = "map (\<lambda>r. (?Tb, Push r)) rs @ ms"
  have eq: "main_events now (run_batches w now (b # bs)) = ?ms @ [(T, Finish completed)]"
    using pa ih by (simp add: Let_def)
  have p2: "\<forall>ev \<in> set ?ms. \<exists>t r. ev = (t, Push r)" using pushes by auto
  have i2: "map res_regionId (pushed ?ms) = map (pr_regionId \<circ> snd) (concat (b # bs))"
    using ids ihids by (simp add: pushed_append pushed_map_Push)
  have s2: "sorted (map fst (?ms @ [(T, Finish completed)]))"
    using srt lb sorted_const_map [of ?Tb rs] by (auto simp: sorted_append comp_def)
  have l2: "\<forall>ev \<in> set (?ms @ [(T, Finish completed)]). now \<le> fst ev"
    using lb ge by auto
  from eq p2 i2 s2 l2 show ?case by blast
qed

lemma retry_events_not_main: "ev \<in> set (retry_events runs) \<Longrightarrow> \<not> is_main ev"
  by (auto simp: retry_events_def)

lemma filter_main_sorted_merge:
  assumes "sorted (map fst main)" "\<forall>ev \<in> set main. is_main ev" "\<forall>ev \<in> set retries. \<not> is_main ev"
  shows "filter is_main (sort_key fst (main @ retries)) = main"
proof -
  have "filter is_main (main @ retries) = main" using assms(2,3) by (simp add: filter_id_conv)
  then have "filter is_main (sort_key fst (main @ retries)) = sort_key fst main"
    by (simp add: filter_sort)
  also have "\<dots> = main" using assms(1) by (rule sort_key_id_if_sorted)
  finally show ?thesis .
qed

lemma note_retry_ids: "map res_regionId (note_retry regionId msg rs) = map res_regionId rs"
  by (induction rs) (auto split: option.splits)

lemma apply_event_ids:
  "map res_regionId (ses_results (apply_event s ev)) = map res_regionId (ses_results s) @ map res_regionId (pushed [ev])"
proof -
  obtain t e where ev: "ev = (t, e)" by (cases ev)
  show ?thesis
  proof (cases e)
    case (Retry regionId attempt err)
    with ev show ?thesis by (cases err) (simp_all add: note_retry_ids)
  qed (simp_all add: ev)
qed

lemma apply_event_status: "ses_status (apply_event s ev) = final_status (ses_status s) [ev]"
proof -
  obtain t e where ev: "ev = (t, e)" by (cases ev)
  show ?thesis
  proof (cases e)
    case (Retry regionId attempt err)
    with ev show ?thesis by (cases err) simp_all
  qed (simp_all add: ev)
qed

lemma apply_event_regions: "ses_regions (apply_event s ev) = ses_regions s"
proof -
  obtain t e where ev: "ev = (t, e)" by (cases ev)
  show ?thesis
  proof (cases e)
    case (Retry regionId attempt err)
    with ev show ?thesis by (cases err) simp_all
  qed (simp_all add: ev)
qed

lemma foldl_apply_ids:
  "map res_regionId (ses_results (foldl apply_event s evs)) =
     map res_regionId (ses_results s) @ map res_regionId (pushed evs)"
proof (induction evs arbitrary: s)
  case Nil
  show ?case by simp
next
  case (Cons ev evs)
  have "pushed (ev # evs) = pushed [ev] @ pushed evs"
    using pushed_append [of "[ev]" evs] by simp
  with Cons [of "apply_event s ev"] show ?case by (simp add: apply_event_ids)
qed

lemma foldl_apply_status:
  "ses_status (foldl apply_event s evs) = final_status (ses_status s) evs"
proof (induction evs arbitrary: s)
  case Nil
  show ?case by simp
next
  case (Cons ev evs)
  have "final_status (ses_status s) (ev # evs) = final_status (final_status (ses_status s) [ev]) evs"
    using final_status_append [of "ses_status s" "[ev]" evs] by simp
  with Cons [of "apply_event s ev"] show ?case by (simp add: apply_event_status)
qed

lemma foldl_apply_regions: "ses_regions (foldl apply_event s evs) = ses_regions s"
  by (induction evs arbitrary: s) (simp_all add: apply_event_regions)

text \<open>\<^verbatim>\<open>cropRegions\<close> yields one cropped region per region, in order, or fails.\<close>

lemma crop_loop_ids:
  "crop_loop extract acc regions = Inr prs \<Longrightarrow>
   map pr_regionId prs = map pr_regionId acc @ map reg_id regions"
  by (induction regions arbitrary: acc) (auto split: option.splits)

lemma cropRegions_ids:
  "cropRegions extract regions = Inr prs \<Longrightarrow> map pr_regionId prs = map reg_id regions"
  using crop_loop_ids [of _ "[]" regions prs] by (simp add: cropRegions_def)


section \<open>The states of a session\<close>

text \<open>
  When the splitting loop ends and the limit is a number, the batches together are the
  list that was split.
\<close>

lemma split_batches_cover:
  assumes "limit \<noteq> NaN" "split_batches limit xs = Some bs"
  shows "concat bs = xs"
proof -
  from assms(1) obtain k where k: "limit = Num k" by (cases limit) auto
  show ?thesis
  proof (cases "0 < k")
    case True
    with assms(2) k have "bs = chunks (nat k) xs" by (simp add: split_batches_pos)
    with True show ?thesis by (simp add: concat_chunks)
  next
    case False
    then have le: "k \<le> 0" by simp
    show ?thesis
    proof (cases "xs = []")
      case True
      with assms(2) show ?thesis by (simp add: split_batches_Nil)
    next
      case False
      with le assms(2) k show ?thesis by (simp add: split_batches_nonpos)
    qed
  qed
qed

text \<open>The three ways \<^verbatim>\<open>processOCRAsync\<close> can go.\<close>

lemma timeline_cases:
  "timeline w imageId regions t0 = [] \<or>
   (timeline w imageId regions t0 = [(t0 + w_prepare w, Finish failed)] \<and>
      top_level_fault w imageId regions) \<or>
   (\<exists>prs bs. \<not> top_level_fault w imageId regions \<and>
      cropRegions (w_extract w) regions = Inr prs \<and>
      split_batches (concurrencyLimit w) (enumerate 0 prs) = Some bs \<and>
      timeline w imageId regions t0 =
        sort_key fst (main_events (t0 + w_prepare w) (run_batches w (t0 + w_prepare w) bs) @
                      retry_events (run_batches w (t0 + w_prepare w) bs)))"
  by (auto simp: timeline_def processOCRAsync_def top_level_fault_def Let_def
        split: option.splits sum.splits)

lemma timeline_main:
  assumes "concurrencyLimit w \<noteq> NaN"
  shows "filter is_main (timeline w imageId regions t0) = [] \<or>
     (filter is_main (timeline w imageId regions t0) = [(t0 + w_prepare w, Finish failed)] \<and>
        top_level_fault w imageId regions) \<or>
     (\<exists>ms T. \<not> top_level_fault w imageId regions \<and>
        filter is_main (timeline w imageId regions t0) = ms @ [(T, Finish completed)] \<and>
        (\<forall>ev \<in> set ms. \<exists>t r. ev = (t, Push r)) \<and>
        map res_regionId (pushed ms) = map reg_id regions)"
proof -
  let ?t1 = "t0 + w_prepare w"
  from timeline_cases [of w imageId regions t0]
  consider "timeline w imageId regions t0 = []"
    | "timeline w imageId regions t0 = [(?t1, Finish failed)]" "top_level_fault w imageId regions"
    | prs bs where "\<not> top_level_fault w imageId regions"
        "cropRegions (w_extract w) regions = Inr prs"
        "split_batches (concurrencyLimit w) (enumerate 0 prs) = Some bs"
        "timeline w imageId regions t0 =
           sort_key fst (main_events ?t1 (run_batches w ?t1 bs) @ retry_events (run_batches w ?t1 bs))"
    by blast
  then show ?thesis
  proof cases
    case 1
    then show ?thesis by simp
  next
    case 2
    then show ?thesis by simp
  next
    case (3 prs bs)
    from main_events_batches [of ?t1 w bs] obtain ms T where
      me: "main_events ?t1 (run_batches w ?t1 bs) = ms @ [(T, Finish completed)]"
      and pushes: "\<forall>ev \<in> set ms. \<exists>t r. ev = (t, Push r)"
      and ids: "map res_regionId (pushed ms) = map (pr_regionId \<circ> snd) (concat bs)"
      and srt: "sorted (map fst (ms @ [(T, Finish completed)]))"
      by blast
    have mains: "\<forall>ev \<in> set (ms @ [(T, Finish completed)]). is_main ev"
      using pushes by auto
    have f: "filter is_main (timeline w imageId regions t0) = ms @ [(T, Finish completed)]"
      unfolding 3(4) me
      using srt mains retry_events_not_main by (intro filter_main_sorted_merge) auto
    have "concat bs = enumerate 0 prs" using assms 3(3) by (rule split_batches_cover)
    then have "map (pr_regionId \<circ> snd) (concat bs) = map pr_regionId prs"
      by (simp add: map_snd_enumerate flip: map_map)
    also have "\<dots> = map reg_id regions" using 3(2) by (rule cropRegions_ids)
    finally have "map res_regionId (pushed ms) = map reg_id regions" using ids by simp
    with f pushes 3(1) show ?thesis by blast
  qed
qed

text \<open>
  Every state a session passes through, when the limit is a number: still processing
  with results for the first regions, in their order; failed without results; or
  completed with one result per region, in their order.
\<close>

lemma session_after_cases:
  fixes w :: world and n :: nat and sessionId imageId :: string
    and regions :: "Region list" and t0 :: nat
  assumes "concurrencyLimit w \<noteq> NaN"
  defines "s \<equiv> session_after n w sessionId imageId regions t0"
  shows "ses_regions s = regions \<and>
     ((ses_status s = processing \<and> prefix (map res_regionId (ses_results s)) (map reg_id regions)) \<or>
      (ses_status s = failed \<and> ses_results s = [] \<and> top_level_fault w imageId regions) \<or>
      (ses_status s = completed \<and> map res_regionId (ses_results s) = map reg_id regions \<and>
         \<not> top_level_fault w imageId regions))"
proof -
  let ?tl = "timeline w imageId regions t0"
  let ?q = "filter is_main (take n ?tl)"
  have regs: "ses_regions s = regions"
    by (simp add: s_def session_after_def foldl_apply_regions new_session_def)
  have ids: "map res_regionId (ses_results s) = map res_regionId (pushed ?q)"
    by (simp add: s_def session_after_def foldl_apply_ids new_session_def pushed_filter_main)
  have st: "ses_status s = final_status processing ?q"
    by (simp add: s_def session_after_def foldl_apply_status new_session_def final_status_filter_main)
  have pre: "prefix ?q (filter is_main ?tl)"
    by (intro filter_mono_prefix take_is_prefix)
  from timeline_main [OF assms(1), of imageId regions t0]
  consider "filter is_main ?tl = []"
    | "filter is_main ?tl = [(t0 + w_prepare w, Finish failed)]" "top_level_fault w imageId regions"
    | ms T where "\<not> top_level_fault w imageId regions"
        "filter is_main ?tl = ms @ [(T, Finish completed)]"
        "\<forall>ev \<in> set ms. \<exists>t r. ev = (t, Push r)"
        "map res_regionId (pushed ms) = map reg_id regions"
    by blast
  then have "(ses_status s = processing \<and> prefix (map res_regionId (ses_results s)) (map reg_id regions)) \<or>
      (ses_status s = failed \<and> ses_results s = [] \<and> top_level_fault w imageId regions) \<or>
      (ses_status s = completed \<and> map res_regionId (ses_results s) = map reg_id regions \<and>
         \<not> top_level_fault w imageId regions)"
  proof cases
    case 1
    with pre have "?q = []" by simp
    with ids st show ?thesis by simp
  next
    case 2
    note fault = 2(2)
    from pre 2(1) have "?q = [] \<or> ?q = [(t0 + w_prepare w, Finish failed)]"
      by (cases ?q) (auto simp: prefix_Cons)
    then show ?thesis
    proof
      assume "?q = []"
      with ids st show ?thesis by simp
    next
      assume "?q = [(t0 + w_prepare w, Finish failed)]"
      with ids st fault show ?thesis by simp
    qed
  next
    case (3 ms T)
    from pre 3(2) have "?q = ms @ [(T, Finish completed)] \<or> prefix ?q ms"
      by (simp add: prefix_snoc)
    then show ?thesis
    proof
      assume q: "?q = ms @ [(T, Finish completed)]"
      have "final_status processing ?q = completed"
        unfolding q using 3(3) by (simp add: final_status_append final_status_pushes)
      moreover have "pushed ?q = pushed ms" unfolding q by (simp add: pushed_append)
      ultimately show ?thesis using ids st 3(1,4) by simp
    next
      assume "prefix ?q ms"
      then obtain zs where ms: "ms = ?q @ zs" by (auto simp: prefix_def)
      with 3(3) have qp: "\<forall>ev \<in> set ?q. \<exists>t r. ev = (t, Push r)"
        by (metis Un_iff set_append)
      then have "final_status processing ?q = processing" by (rule final_status_pushes)
      moreover have "pushed ms = pushed ?q @ pushed zs"
        using ms pushed_append [of ?q zs] by simp
      then have "prefix (map res_regionId (pushed ?q)) (map res_regionId (pushed ms))"
        by simp
      ultimately show ?thesis using ids st 3(4) by simp
    qed
  qed
  with regs show ?thesis by simp
qed


section \<open>Sessions in the concrete worlds\<close>

lemma calm_world_fields:
  "w_readdir calm_world = Some [''img1_photo.png'']"
  "w_metadata calm_world = Some (Some 100, Some 100)"
  "w_extract calm_world = (\<lambda>r. Some [])"
  "w_OCR_CONCURRENCY_LIMIT calm_world = None"
  "w_timeout calm_world = 30000"
  "w_prepare calm_world = 10"
  "w_optimize calm_world = (\<lambda>i. 0)"
  "w_vision calm_world = (\<lambda>i k. \<lparr> call_duration = 100, call_outcome = Inr ''hello'' \<rparr>)"
  by (simp_all add: calm_world_def)

lemma plain_valid:
  "valid (validateRegions (Some (Some 100, Some 100)) (map plain_region ids))"
  by (induction ids)
     (simp_all add: validateRegions_def validate_loop_concat region_checks_def plain_region_def)

lemma plain_crop_loop:
  "crop_loop (\<lambda>r. Some []) acc (map plain_region ids) =
     Inr (acc @ map (\<lambda>i. \<lparr> pr_regionId = i, pr_imageBuffer = [], pr_mimeType = ''image/png'' \<rparr>) ids)"
  by (induction ids arbitrary: acc) (simp_all add: plain_region_def)

lemma plain_crop:
  "cropRegions (\<lambda>r. Some []) (map plain_region ids) =
     Inr (map (\<lambda>i. \<lparr> pr_regionId = i, pr_imageBuffer = [], pr_mimeType = ''image/png'' \<rparr>) ids)"
  by (simp add: cropRegions_def plain_crop_loop)

lemma four_regions_checked:
  "valid (validateRegions (Some (Some 100, Some 100)) four_regions)"
  "cropRegions (\<lambda>r. Some []) four_regions =
     Inr [\<lparr> pr_regionId = ''r1'', pr_imageBuffer = [], pr_mimeType = ''image/png'' \<rparr>,
          \<lparr> pr_regionId = ''r2'', pr_imageBuffer = [], pr_mimeType = ''image/png'' \<rparr>,
          \<lparr> pr_regionId = ''r3'', pr_imageBuffer = [], pr_mimeType = ''image/png'' \<rparr>,
          \<lparr> pr_regionId = ''r4'', pr_imageBuffer = [], pr_mimeType = ''image/png'' \<rparr>]"
  unfolding four_regions_def plain_crop by (rule plain_valid) simp

lemma one_region_checked:
  "valid (validateRegions (Some (Some 100, Some 100)) one_region)"
  "cropRegions (\<lambda>r. Some []) one_region =
     Inr [\<lparr> pr_regionId = ''r1'', pr_imageBuffer = [], pr_mimeType = ''image/png'' \<rparr>]"
  unfolding one_region_def plain_crop by (rule plain_valid) simp

lemma calm_region:
  "processRegion calm_world s (i, pr) =
     \<lparr> rr_promise = (s + 100, Inr \<lparr> res_regionId = pr_regionId pr, res_text = ''hello'',
                                     res_processingTime = 100, res_error = None \<rparr>),
       rr_callbacks = [] \<rparr>"
  by (simp add: processRegion_def retryWithBackoff_default GeminiService_processOCR_def race_def
        calm_world_fields withTimeout_cases run_promise_def region_result_def Let_def)

text \<open>Four regions in the calm world: a batch of three, then a batch of one.\<close>

lemma calm_timeline:
  "timeline calm_world ''img1'' four_regions 0 =
     [(110, Push \<lparr> res_regionId = ''r1'', res_text = ''hello'', res_processingTime = 100, res_error = None \<rparr>),
      (110, Push \<lparr> res_regionId = ''r2'', res_text = ''hello'', res_processingTime = 100, res_error = None \<rparr>),
      (110, Push \<lparr> res_regionId = ''r3'', res_text = ''hello'', res_processingTime = 100, res_error = None \<rparr>),
      (210, Push \<lparr> res_regionId = ''r4'', res_text = ''hello'', res_processingTime = 100, res_error = None \<rparr>),
      (210, Finish completed)]"
proof -
  have s: "\<And>a b c d :: nat \<times> ProcessedRegion.
      split_batches (Num 3) [a, b, c, d] = Some [[a, b, c], [d]]"
    by (simp add: split_batches_pos chunks.simps)
  show ?thesis
    by (simp add: timeline_def processOCRAsync_def calm_world_fields concurrencyLimit_def
          four_regions_checked s calm_region promise_all_def retry_events_def Let_def)
qed

text \<open>
  One region with the limit \<^verbatim>\<open>NaN\<close>: the only batch is empty, nothing is processed, and
  the session is completed at once.
\<close>

lemma nan_timeline:
  "timeline nan_world ''img1'' one_region 0 = [(10, Finish completed)]"
  by (simp add: timeline_def processOCRAsync_def nan_world_def calm_world_fields concurrencyLimit_def
        one_region_checked split_batches_NaN promise_all_def retry_events_def Let_def)

lemma nan_session:
  "session_after 1 nan_world ''s1'' ''img1'' one_region 0 =
     \<lparr> ses_id = ''s1'', ses_imageId = ''img1'', ses_regions = one_region,
       ses_results = [], ses_status = completed, ses_createdAt = 0, ses_completedAt = Some 10 \<rparr>"
  by (simp add: session_after_def nan_timeline new_session_def)

text \<open>Without the image file the session fails before any region is processed.\<close>

lemma lost_timeline:
  "timeline lost_world ''img1'' one_region 0 = [(10, Finish failed)]"
  by (simp add: timeline_def processOCRAsync_def lost_world_def calm_world_fields Let_def)

lemma one_region_length: "length one_region = 1"
  by (simp add: one_region_def)

lemma four_regions_length: "length four_regions = 4"
  by (simp add: four_regions_def)

text \<open>
  C1, as amended. When the concurrency limit is a number (the variable
  \<^verbatim>\<open>OCR_CONCURRENCY_LIMIT\<close> is unset or starts with an integer), at every moment of a
  session the number of results is at most the number of regions; a completed session
  has exactly one result per region; a failed session has no result, and it failed for
  a top-level fault (image lookup, validation or cropping); so a session in a terminal
  state has as many results as regions or is failed without results.
\<close>

theorem session_result_count:
  "concurrencyLimit w \<noteq> NaN \<longrightarrow>
     length (ses_results (session_after n w sessionId imageId regions t0))
       \<le> length (ses_regions (session_after n w sessionId imageId regions t0)) \<and>
     (ses_status (session_after n w sessionId imageId regions t0) = completed \<longrightarrow>
        length (ses_results (session_after n w sessionId imageId regions t0))
          = length (ses_regions (session_after n w sessionId imageId regions t0))) \<and>
     (ses_status (session_after n w sessionId imageId regions t0) = failed \<longrightarrow>
        ses_results (session_after n w sessionId imageId regions t0) = [] \<and>
        top_level_fault w imageId regions) \<and>
     (ses_status (session_after n w sessionId imageId regions t0) = completed \<or>
      ses_status (session_after n w sessionId imageId regions t0) = failed \<longrightarrow>
        length (ses_results (session_after n w sessionId imageId regions t0))
          = length (ses_regions (session_after n w sessionId imageId regions t0)) \<or>
        (ses_status (session_after n w sessionId imageId regions t0) = failed \<and>
         ses_results (session_after n w sessionId imageId regions t0) = []))"
proof
  assume lim: "concurrencyLimit w \<noteq> NaN"
  let ?s = "session_after n w sessionId imageId regions t0"
  from session_after_cases [OF lim, of n sessionId imageId regions t0]
  have regs: "ses_regions ?s = regions"
    and disj: "(ses_status ?s = processing \<and> prefix (map res_regionId (ses_results ?s)) (map reg_id regions)) \<or>
      (ses_status ?s = failed \<and> ses_results ?s = [] \<and> top_level_fault w imageId regions) \<or>
      (ses_status ?s = completed \<and> map res_regionId (ses_results ?s) = map reg_id regions \<and>
         \<not> top_level_fault w imageId regions)"
    by simp_all
  from disj consider
      (running) "ses_status ?s = processing" "prefix (map res_regionId (ses_results ?s)) (map reg_id regions)"
    | (faulted) "ses_status ?s = failed" "ses_results ?s = []" "top_level_fault w imageId regions"
    | (finished) "ses_status ?s = completed" "map res_regionId (ses_results ?s) = map reg_id regions"
    by blast
  then show "length (ses_results ?s) \<le> length (ses_regions ?s) \<and>
     (ses_status ?s = completed \<longrightarrow> length (ses_results ?s) = length (ses_regions ?s)) \<and>
     (ses_status ?s = failed \<longrightarrow> ses_results ?s = [] \<and> top_level_fault w imageId regions) \<and>
     (ses_status ?s = completed \<or> ses_status ?s = failed \<longrightarrow>
        length (ses_results ?s) = length (ses_regions ?s) \<or>
        (ses_status ?s = failed \<and> ses_results ?s = []))"
  proof cases
    case running
    from running(2) have "length (map res_regionId (ses_results ?s)) \<le> length (map reg_id regions)"
      by (rule prefix_length_le)
    with running(1) regs show ?thesis by simp
  next
    case faulted
    with regs show ?thesis by simp
  next
    case finished
    from finished(2) have "length (map res_regionId (ses_results ?s)) = length (map reg_id regions)"
      by simp
    with finished(1) regs show ?thesis by simp
  qed
qed

theorem session_result_count_witness:
  "concurrencyLimit calm_world \<noteq> NaN \<and>
   ses_status (session_after 5 calm_world ''s1'' ''img1'' four_regions 0)
     = completed \<and>
   length (ses_results (session_after 5 calm_world ''s1'' ''img1'' four_regions 0))
     = 4 \<and>
   length (ses_results (session_after 2 calm_world ''s1'' ''img1'' four_regions 0))
     \<le> 4 \<and>
   concurrencyLimit lost_world \<noteq> NaN \<and>
   ses_status (session_after 1 lost_world ''s1'' ''img1'' one_region 0) = failed \<and>
   ses_results (session_after 1 lost_world ''s1'' ''img1'' one_region 0) = [] \<and>
   top_level_fault lost_world ''img1'' one_region"
proof -
  have c: "concurrencyLimit calm_world \<noteq> NaN" "concurrencyLimit lost_world \<noteq> NaN"
    by (simp_all add: concurrencyLimit_def lost_world_def calm_world_fields)
  have s5: "ses_status (session_after 5 calm_world ''s1'' ''img1'' four_regions 0)
     = completed"
    by (simp add: session_after_def calm_timeline new_session_def)
  have r5: "ses_regions (session_after 5 calm_world ''s1'' ''img1'' four_regions 0)
     = four_regions"
    "ses_regions (session_after 2 calm_world ''s1'' ''img1'' four_regions 0)
     = four_regions"
    by (simp_all add: session_after_def foldl_apply_regions new_session_def)
  have l1: "ses_status (session_after 1 lost_world ''s1'' ''img1'' one_region 0) = failed"
    by (simp add: session_after_def lost_timeline new_session_def)
  from session_result_count [of calm_world 5 "''s1''" "''img1''" four_regions 0]
    session_result_count [of calm_world 2 "''s1''" "''img1''" four_regions 0]
    session_result_count [of lost_world 1 "''s1''" "''img1''" one_region 0]
    c s5 r5 l1 four_regions_length
  show ?thesis by simp
qed

text \<open>
  C1 as stated fails when \<^verbatim>\<open>OCR_CONCURRENCY_LIMIT\<close> does not parse: the session
  is completed with no result for its one region.
\<close>

theorem completed_without_results_counterexample:
  "ses_status (session_after 1 nan_world ''s1'' ''img1'' one_region 0) = completed \<and>
   length (ses_results (session_after 1 nan_world ''s1'' ''img1'' one_region 0))
     < length (ses_regions (session_after 1 nan_world ''s1'' ''img1'' one_region 0))"
  unfolding nan_session by (simp add: one_region_length)

text \<open>
  C10, as amended. When the concurrency limit is a number, the results of a completed
  session are in the order of the regions: there are as many, and the result at each
  position carries the id of the region at that position. If the region ids are
  distinct, so are the ids of the results, and they are the same ids.
\<close>

theorem completed_results_in_region_order:
  "concurrencyLimit w \<noteq> NaN \<and>
   ses_status (session_after n w sessionId imageId regions t0) = completed \<longrightarrow>
     map res_regionId (ses_results (session_after n w sessionId imageId regions t0))
       = map reg_id regions \<and>
     length (ses_results (session_after n w sessionId imageId regions t0)) = length regions \<and>
     (\<forall>i < length regions.
        res_regionId (ses_results (session_after n w sessionId imageId regions t0) ! i)
          = reg_id (regions ! i)) \<and>
     (distinct (map reg_id regions) \<longrightarrow>
        distinct (map res_regionId (ses_results (session_after n w sessionId imageId regions t0))) \<and>
        set (map res_regionId (ses_results (session_after n w sessionId imageId regions t0)))
          = set (map reg_id regions))"
proof
  assume h: "concurrencyLimit w \<noteq> NaN \<and>
    ses_status (session_after n w sessionId imageId regions t0) = completed"
  let ?s = "session_after n w sessionId imageId regions t0"
  from h session_after_cases [of w n sessionId imageId regions t0]
  have ids: "map res_regionId (ses_results ?s) = map reg_id regions" by auto
  then have len: "length (ses_results ?s) = length regions" by (metis length_map)
  have nth: "\<forall>i < length regions. res_regionId (ses_results ?s ! i) = reg_id (regions ! i)"
  proof (intro allI impI)
    fix i assume i: "i < length regions"
    from ids have "map res_regionId (ses_results ?s) ! i = map reg_id regions ! i" by simp
    with i len show "res_regionId (ses_results ?s ! i) = reg_id (regions ! i)" by simp
  qed
  from ids len nth
  show "map res_regionId (ses_results ?s) = map reg_id regions \<and>
     length (ses_results ?s) = length regions \<and>
     (\<forall>i < length regions. res_regionId (ses_results ?s ! i) = reg_id (regions ! i)) \<and>
     (distinct (map reg_id regions) \<longrightarrow>
        distinct (map res_regionId (ses_results ?s)) \<and>
        set (map res_regionId (ses_results ?s)) = set (map reg_id regions))"
    by simp
qed

theorem completed_results_in_region_order_witness:
  "concurrencyLimit calm_world \<noteq> NaN \<and>
   ses_status (session_after 5 calm_world ''s1'' ''img1'' four_regions 0)
     = completed \<and>
   map res_regionId (ses_results (session_after 5 calm_world ''s1'' ''img1''
       four_regions 0))
     = [''r1'', ''r2'', ''r3'', ''r4''] \<and>
   distinct (map reg_id four_regions)"
proof -
  have c: "concurrencyLimit calm_world \<noteq> NaN"
    by (simp add: concurrencyLimit_def calm_world_fields)
  have s5: "ses_status (session_after 5 calm_world ''s1'' ''img1'' four_regions 0)
     = completed"
    by (simp add: session_after_def calm_timeline new_session_def)
  have ids: "map reg_id four_regions = [''r1'', ''r2'', ''r3'', ''r4'']"
    by (simp add: plain_region_def four_regions_def)
  from completed_results_in_region_order
    [of calm_world 5 "''s1''" "''img1''" four_regions 0]
    c s5 ids
  show ?thesis by simp
qed

text \<open>
  C10 as stated fails when \<^verbatim>\<open>OCR_CONCURRENCY_LIMIT\<close> does not parse: the completed
  session has no result at position 0, where the region \<^verbatim>\<open>r1\<close> is.
\<close>

theorem completed_order_counterexample:
  "ses_status (session_after 1 nan_world ''s1'' ''img1'' one_region 0) = completed \<and>
   map res_regionId (ses_results (session_after 1 nan_world ''s1'' ''img1'' one_region 0))
     \<noteq> map reg_id one_region \<and>
   \<not> (\<exists>r \<in> set (ses_results (session_after 1 nan_world ''s1'' ''img1'' one_region 0)).
        res_regionId r = ''r1'')"
  unfolding nan_session by (simp add: one_region_def)


section \<open>Batches in sequence\<close>

lemma batch_promise:
  "promise_all now (map (rr_promise \<circ> processRegion w now) batch) =
     (fold max (map (fst \<circ> (rr_promise \<circ> processRegion w now)) batch) now,
      Inr (resolved_values (map (rr_promise \<circ> processRegion w now) batch)))"
proof -
  let ?ps = "map (rr_promise \<circ> processRegion w now) batch"
  have all: "\<forall>p \<in> set ?ps. \<exists>v. snd p = Inr v"
  proof
    fix p assume "p \<in> set ?ps"
    then obtain ip where "p = rr_promise (processRegion w now ip)" by auto
    with processRegion_resolves [of w now ip] show "\<exists>v. snd p = Inr v" by auto
  qed
  from first_rejection_none [OF all] show ?thesis by (simp add: promise_all_def)
qed

lemma run_batches_Cons:
  "run_batches w now (b # bs) =
     \<lparr> br_start = now, br_members = map (processRegion w now) b,
       br_promise = promise_all now (map (rr_promise \<circ> processRegion w now) b) \<rparr> #
     run_batches w (fst (promise_all now (map (rr_promise \<circ> processRegion w now) b))) bs"
  by (simp add: batch_promise Let_def)

declare run_batches.simps(2) [simp del]

lemma batch_members_settle:
  assumes "m \<in> set (map (processRegion w now) b)"
  shows "now \<le> fst (rr_promise m) \<and>
     fst (rr_promise m) \<le> fst (promise_all now (map (rr_promise \<circ> processRegion w now) b))"
proof -
  from assms obtain ip where m: "m = processRegion w now ip" by auto
  have "fst (rr_promise m) \<in> set (map (fst \<circ> (rr_promise \<circ> processRegion w now)) b)"
    using assms by auto
  then have "fst (rr_promise m) \<le> fold max (map (fst \<circ> (rr_promise \<circ> processRegion w now)) b) now"
    using fold_max_ge by blast
  then show ?thesis using m processRegion_starts_before_settled [of now w ip]
    by (simp add: batch_promise)
qed

text \<open>
  The batches run one after the other: all members of a batch start when the batch
  starts, the batch settles when \<^verbatim>\<open>Promise.all\<close> of its members does, which is not before
  any member has settled, and the next batch starts at that moment.
\<close>

lemma run_batches_sequence:
  "length (run_batches w now bs) = length bs \<and>
   (bs \<noteq> [] \<longrightarrow> br_start (run_batches w now bs ! 0) = now) \<and>
   (\<forall>j < length bs.
      br_members (run_batches w now bs ! j)
        = map (processRegion w (br_start (run_batches w now bs ! j))) (bs ! j) \<and>
      br_promise (run_batches w now bs ! j)
        = promise_all (br_start (run_batches w now bs ! j))
            (map rr_promise (br_members (run_batches w now bs ! j))) \<and>
      (\<forall>m \<in> set (br_members (run_batches w now bs ! j)).
         br_start (run_batches w now bs ! j) \<le> fst (rr_promise m) \<and>
         fst (rr_promise m) \<le> fst (br_promise (run_batches w now bs ! j))) \<and>
      (Suc j < length bs \<longrightarrow>
         br_start (run_batches w now bs ! Suc j) = fst (br_promise (run_batches w now bs ! j))))"
proof (induction bs arbitrary: now)
  case Nil
  show ?case by simp
next
  case (Cons b bs)
  let ?T = "fst (promise_all now (map (rr_promise \<circ> processRegion w now) b))"
  note ih = Cons [of ?T]
  show ?case
  proof (intro conjI impI allI)
    show "length (run_batches w now (b # bs)) = length (b # bs)"
      using ih by (simp add: run_batches_Cons)
    show "br_start (run_batches w now (b # bs) ! 0) = now"
      by (simp add: run_batches_Cons)
  next
    fix j assume j: "j < length (b # bs)"
    show "br_members (run_batches w now (b # bs) ! j)
        = map (processRegion w (br_start (run_batches w now (b # bs) ! j))) ((b # bs) ! j)"
      using ih j by (cases j) (simp_all add: run_batches_Cons)
    show "br_promise (run_batches w now (b # bs) ! j)
        = promise_all (br_start (run_batches w now (b # bs) ! j))
            (map rr_promise (br_members (run_batches w now (b # bs) ! j)))"
      using ih j by (cases j) (simp_all add: run_batches_Cons)
    show "\<forall>m \<in> set (br_members (run_batches w now (b # bs) ! j)).
         br_start (run_batches w now (b # bs) ! j) \<le> fst (rr_promise m) \<and>
         fst (rr_promise m) \<le> fst (br_promise (run_batches w now (b # bs) ! j))"
    proof (cases j)
      case 0
      then show ?thesis using batch_members_settle [of _ w now b]
        by (simp add: run_batches_Cons)
    next
      case (Suc j')
      with j have "j' < length bs" by simp
      with ih have "\<forall>m \<in> set (br_members (run_batches w ?T bs ! j')).
         br_start (run_batches w ?T bs ! j') \<le> fst (rr_promise m) \<and>
         fst (rr_promise m) \<le> fst (br_promise (run_batches w ?T bs ! j'))"
        by blast
      with Suc show ?thesis by (simp add: run_batches_Cons)
    qed
    show "br_start (run_batches w now (b # bs) ! Suc j) = fst (br_promise (run_batches w now (b # bs) ! j))"
      if "Suc j < length (b # bs)"
    proof (cases j)
      case 0
      with that have "bs \<noteq> []" by auto
      with ih 0 show ?thesis by (simp add: run_batches_Cons)
    next
      case (Suc j')
      with that have "j' < length bs" "Suc j' < length bs" by simp_all
      with ih have "br_start (run_batches w ?T bs ! Suc j') = fst (br_promise (run_batches w ?T bs ! j'))"
        by blast
      with Suc show ?thesis by (simp add: run_batches_Cons)
    qed
  qed
qed

text \<open>The results of a batch are pushed when the batch has settled.\<close>

lemma main_events_times:
  "main_events now (run_batches w now bs) =
     concat (map (\<lambda>b. map (\<lambda>r. (fst (br_promise b), Push r))
                        (resolved_values (map rr_promise (br_members b))))
                 (run_batches w now bs)) @
     [(case run_batches w now bs of [] \<Rightarrow> now | r # rs \<Rightarrow> fst (br_promise (last (r # rs))),
       Finish completed)]"
proof (induction bs arbitrary: now)
  case Nil
  show ?case by simp
next
  case (Cons b bs)
  let ?T = "fst (promise_all now (map (rr_promise \<circ> processRegion w now) b))"
  have p: "snd (promise_all now (map (rr_promise \<circ> processRegion w now) b)) =
      Inr (resolved_values (map (rr_promise \<circ> processRegion w now) b))"
    by (simp add: batch_promise)
  have "run_batches w ?T bs = [] \<longleftrightarrow> bs = []"
    using run_batches_sequence [of w ?T bs] by (metis length_0_conv)
  then show ?case
    using Cons [of ?T] p
    by (cases bs) (simp_all add: run_batches_Cons split: list.splits)
qed

text \<open>Seven elements split by three, whatever they are.\<close>

lemma split_seven: "split_batches (Num 3) [a, b, c, d, e, f, g] = Some [[a, b, c], [d, e, f], [g]]"
  by (simp add: split_batches_pos chunks.simps)

lemma processOCRAsync_success:
  assumes "w_readdir w = Some files"
    and "find (\<lambda>file. prefix (imageId @ ''_'') file) files = Some imageFile"
    and "valid (validateRegions (w_metadata w) regions)"
    and "cropRegions (w_extract w) regions = Inr prs"
    and "split_batches (concurrencyLimit w) (enumerate 0 prs) = Some bs"
  shows "processOCRAsync w imageId regions t0 =
     Some (sort_key fst (main_events (t0 + w_prepare w) (run_batches w (t0 + w_prepare w) bs) @
                         retry_events (run_batches w (t0 + w_prepare w) bs)))"
  using assms by (simp add: processOCRAsync_def Let_def)

text \<open>
  C5, as amended. When the concurrency limit is a positive integer (3 when the
  environment variable is unset) and the image is found, the regions are valid and are
  cropped, \<^verbatim>\<open>processOCRAsync\<close> splits the cropped regions, numbered by position, into
  batches that one after the other are the list of cropped regions: none is empty or
  longer than the limit, all but the last have exactly the size of the limit, and
  there are \<open>\<lceil>length / limit\<rceil>\<close> of them. Its events are those of the runs of these
  batches in sequence: there is one run per batch, in order, the first starting when the
  preparation is done; all members of a batch start when the batch starts; the batch
  settles, by \<^verbatim>\<open>Promise.all\<close>, not before any of its members; the next batch starts when
  the batch has settled; and the results of a batch are pushed at the moment the batch
  has settled. Seven elements with limit 3 give the batches of sizes 3, 3 and 1.
\<close>

theorem orchestrator_batches_in_sequence:
  "(concurrencyLimit w = Num k \<and> 0 < k \<and> w_readdir w = Some files \<and>
    find (\<lambda>file. prefix (imageId @ ''_'') file) files = Some imageFile \<and>
    valid (validateRegions (w_metadata w) regions) \<and>
    cropRegions (w_extract w) regions = Inr prs \<longrightarrow>
      (\<exists>bs. split_batches (concurrencyLimit w) (enumerate 0 prs) = Some bs \<and>
         concat bs = enumerate 0 prs \<and> map snd (concat bs) = prs \<and>
         (\<forall>b \<in> set bs. b \<noteq> [] \<and> int (length b) \<le> k) \<and>
         (\<forall>b \<in> set (butlast bs). int (length b) = k) \<and>
         length bs = (length prs + nat k - 1) div nat k \<and>
         processOCRAsync w imageId regions t0 =
           Some (sort_key fst
                   (main_events (t0 + w_prepare w) (run_batches w (t0 + w_prepare w) bs) @
                    retry_events (run_batches w (t0 + w_prepare w) bs))) \<and>
         length (run_batches w (t0 + w_prepare w) bs) = length bs \<and>
         (bs \<noteq> [] \<longrightarrow> br_start (run_batches w (t0 + w_prepare w) bs ! 0) = t0 + w_prepare w) \<and>
         (\<forall>j < length bs.
            br_members (run_batches w (t0 + w_prepare w) bs ! j)
              = map (processRegion w (br_start (run_batches w (t0 + w_prepare w) bs ! j))) (bs ! j) \<and>
            br_promise (run_batches w (t0 + w_prepare w) bs ! j)
              = promise_all (br_start (run_batches w (t0 + w_prepare w) bs ! j))
                  (map rr_promise (br_members (run_batches w (t0 + w_prepare w) bs ! j))) \<and>
            (\<forall>m \<in> set (br_members (run_batches w (t0 + w_prepare w) bs ! j)).
               br_start (run_batches w (t0 + w_prepare w) bs ! j) \<le> fst (rr_promise m) \<and>
               fst (rr_promise m) \<le> fst (br_promise (run_batches w (t0 + w_prepare w) bs ! j))) \<and>
            (Suc j < length bs \<longrightarrow>
               br_start (run_batches w (t0 + w_prepare w) bs ! Suc j)
                 = fst (br_promise (run_batches w (t0 + w_prepare w) bs ! j)))) \<and>
         main_events (t0 + w_prepare w) (run_batches w (t0 + w_prepare w) bs) =
           concat (map (\<lambda>b. map (\<lambda>r. (fst (br_promise b), Push r))
                              (resolved_values (map rr_promise (br_members b))))
                       (run_batches w (t0 + w_prepare w) bs)) @
           [(case run_batches w (t0 + w_prepare w) bs of
               [] \<Rightarrow> t0 + w_prepare w | r # rs \<Rightarrow> fst (br_promise (last (r # rs))),
             Finish completed)])) \<and>
   (w_OCR_CONCURRENCY_LIMIT w = None \<longrightarrow> concurrencyLimit w = Num 3) \<and>
   split_batches (Num 3) [x1, x2, x3, x4, x5, x6, x7] = Some [[x1, x2, x3], [x4, x5, x6], [x7]]"
proof (intro conjI impI)
  assume h: "concurrencyLimit w = Num k \<and> 0 < k \<and> w_readdir w = Some files \<and>
    find (\<lambda>file. prefix (imageId @ ''_'') file) files = Some imageFile \<and>
    valid (validateRegions (w_metadata w) regions) \<and>
    cropRegions (w_extract w) regions = Inr prs"
  then have k: "0 < k" and n: "0 < nat k" and lim: "concurrencyLimit w = Num k" by simp_all
  let ?T = "t0 + w_prepare w"
  let ?bs = "chunks (nat k) (enumerate 0 prs)"
  have sp: "split_batches (concurrencyLimit w) (enumerate 0 prs) = Some ?bs"
    unfolding lim using k by (rule split_batches_pos)
  have cc: "concat ?bs = enumerate 0 prs" using n by (rule concat_chunks)
  then have ms: "map snd (concat ?bs) = prs" by (simp add: map_snd_enumerate)
  have sz: "\<forall>b \<in> set ?bs. b \<noteq> [] \<and> int (length b) \<le> k"
    using chunks_sizes [of _ "nat k" "enumerate 0 prs"] k by (auto simp: le_nat_iff)
  have fl: "\<forall>b \<in> set (butlast ?bs). int (length b) = k"
    using chunks_full [of _ "nat k" "enumerate 0 prs"] k by auto
  have ln: "length ?bs = (length prs + nat k - 1) div nat k"
    using length_chunks [OF n, of "enumerate 0 prs"] by simp
  have ev: "processOCRAsync w imageId regions t0 =
      Some (sort_key fst (main_events ?T (run_batches w ?T ?bs) @ retry_events (run_batches w ?T ?bs)))"
    using h sp by (intro processOCRAsync_success) auto
  from sp cc ms sz fl ln ev run_batches_sequence [of w ?T ?bs] main_events_times [of ?T w ?bs]
  show "\<exists>bs. split_batches (concurrencyLimit w) (enumerate 0 prs) = Some bs \<and>
         concat bs = enumerate 0 prs \<and> map snd (concat bs) = prs \<and>
         (\<forall>b \<in> set bs. b \<noteq> [] \<and> int (length b) \<le> k) \<and>
         (\<forall>b \<in> set (butlast bs). int (length b) = k) \<and>
         length bs = (length prs + nat k - 1) div nat k \<and>
         processOCRAsync w imageId regions t0 =
           Some (sort_key fst
                   (main_events (t0 + w_prepare w) (run_batches w (t0 + w_prepare w) bs) @
                    retry_events (run_batches w (t0 + w_prepare w) bs))) \<and>
         length (run_batches w (t0 + w_prepare w) bs) = length bs \<and>
         (bs \<noteq> [] \<longrightarrow> br_start (run_batches w (t0 + w_prepare w) bs ! 0) = t0 + w_prepare w) \<and>
         (\<forall>j < length bs.
            br_members (run_batches w (t0 + w_prepare w) bs ! j)
              = map (processRegion w (br_start (run_batches w (t0 + w_prepare w) bs ! j))) (bs ! j) \<and>
            br_promise (run_batches w (t0 + w_prepare w) bs ! j)
              = promise_all (br_start (run_batches w (t0 + w_prepare w) bs ! j))
                  (map rr_promise (br_members (run_batches w (t0 + w_prepare w) bs ! j))) \<and>
            (\<forall>m \<in> set (br_members (run_batches w (t0 + w_prepare w) bs ! j)).
               br_start (run_batches w (t0 + w_prepare w) bs ! j) \<le> fst (rr_promise m) \<and>
               fst (rr_promise m) \<le> fst (br_promise (run_batches w (t0 + w_prepare w) bs ! j))) \<and>
            (Suc j < length bs \<longrightarrow>
               br_start (run_batches w (t0 + w_prepare w) bs ! Suc j)
                 = fst (br_promise (run_batches w (t0 + w_prepare w) bs ! j)))) \<and>
         main_events (t0 + w_prepare w) (run_batches w (t0 + w_prepare w) bs) =
           concat (map (\<lambda>b. map (\<lambda>r. (fst (br_promise b), Push r))
                              (resolved_values (map rr_promise (br_members b))))
                       (run_batches w (t0 + w_prepare w) bs)) @
           [(case run_batches w (t0 + w_prepare w) bs of
               [] \<Rightarrow> t0 + w_prepare w | r # rs \<Rightarrow> fst (br_promise (last (r # rs))),
             Finish completed)]"
    by (intro exI [of _ ?bs]) blast
next
  assume "w_OCR_CONCURRENCY_LIMIT w = None"
  then show "concurrencyLimit w = Num 3" by (simp add: concurrencyLimit_def)
next
  show "split_batches (Num 3) [x1, x2, x3, x4, x5, x6, x7] = Some [[x1, x2, x3], [x4, x5, x6], [x7]]"
    by (rule split_seven)
qed

text \<open>
  Seven regions in the calm world: \<^verbatim>\<open>processOCRAsync\<close> makes the three batches, which
  start at 10, 110 and 210 ms, and pushes three results at 110 ms, three at 210 ms
  and one at 310 ms.
\<close>

lemma seven_regions_checked:
  "valid (validateRegions (Some (Some 100, Some 100)) seven_regions)"
  "cropRegions (\<lambda>r. Some []) seven_regions =
     Inr (map cropped [''r1'', ''r2'', ''r3'', ''r4'', ''r5'', ''r6'', ''r7''])"
  unfolding seven_regions_def plain_crop by (rule plain_valid) (simp add: cropped_def)

lemma seven_split:
  "split_batches (Num 3) (enumerate 0 (map cropped [''r1'', ''r2'', ''r3'', ''r4'', ''r5'', ''r6'', ''r7'']))
     = Some three_batches"
  by (simp add: split_seven three_batches_def)

lemma calm_cropped: "rr_promise (processRegion calm_world s (i, cropped r)) = (s + 100, Inr (hello r))"
  "rr_callbacks (processRegion calm_world s (i, cropped r)) = []"
  by (simp_all add: calm_region cropped_def hello_def)

lemma three_runs:
  "map br_start (run_batches calm_world 10 three_batches) = [10, 110, 210]"
  "map br_promise (run_batches calm_world 10 three_batches) =
     [(110, Inr [hello ''r1'', hello ''r2'', hello ''r3'']),
      (210, Inr [hello ''r4'', hello ''r5'', hello ''r6'']),
      (310, Inr [hello ''r7''])]"
  by (simp_all add: three_batches_def run_batches_Cons calm_cropped promise_all_def)

lemma seven_events:
  "sort_key fst (main_events 10 (run_batches calm_world 10 three_batches) @
                 retry_events (run_batches calm_world 10 three_batches)) =
     [(110, Push (hello ''r1'')), (110, Push (hello ''r2'')), (110, Push (hello ''r3'')),
      (210, Push (hello ''r4'')), (210, Push (hello ''r5'')), (210, Push (hello ''r6'')),
      (310, Push (hello ''r7'')), (310, Finish completed)]"
  by (simp add: three_batches_def run_batches_Cons calm_cropped promise_all_def retry_events_def)

theorem orchestrator_batches_in_sequence_witness:
  "concurrencyLimit calm_world = Num 3 \<and> (0::int) < 3 \<and>
   w_readdir calm_world = Some [''img1_photo.png''] \<and>
   find (\<lambda>file. prefix (''img1'' @ ''_'') file) [''img1_photo.png''] = Some ''img1_photo.png'' \<and>
   valid (validateRegions (w_metadata calm_world) seven_regions) \<and>
   cropRegions (w_extract calm_world) seven_regions =
     Inr (map cropped [''r1'', ''r2'', ''r3'', ''r4'', ''r5'', ''r6'', ''r7'']) \<and>
   split_batches (concurrencyLimit calm_world)
     (enumerate 0 (map cropped [''r1'', ''r2'', ''r3'', ''r4'', ''r5'', ''r6'', ''r7'']))
     = Some three_batches \<and>
   map length three_batches = [3, 3, 1] \<and>
   length (run_batches calm_world 10 three_batches) = 3 \<and>
   map br_start (run_batches calm_world 10 three_batches) = [10, 110, 210] \<and>
   map (\<lambda>b. fst (br_promise b)) (run_batches calm_world 10 three_batches) = [110, 210, 310] \<and>
   processOCRAsync calm_world ''img1'' seven_regions 0 =
     Some [(110, Push (hello ''r1'')), (110, Push (hello ''r2'')), (110, Push (hello ''r3'')),
           (210, Push (hello ''r4'')), (210, Push (hello ''r5'')), (210, Push (hello ''r6'')),
           (310, Push (hello ''r7'')), (310, Finish completed)]"
proof -
  have lim: "concurrencyLimit calm_world = Num 3"
    by (simp add: concurrencyLimit_def calm_world_fields)
  have fnd: "find (\<lambda>file. prefix (''img1'' @ ''_'') file) [''img1_photo.png''] = Some ''img1_photo.png''"
    by simp
  have vld: "valid (validateRegions (w_metadata calm_world) seven_regions)"
    by (simp add: calm_world_fields seven_regions_checked)
  have crp: "cropRegions (w_extract calm_world) seven_regions =
     Inr (map cropped [''r1'', ''r2'', ''r3'', ''r4'', ''r5'', ''r6'', ''r7''])"
    by (simp add: calm_world_fields seven_regions_checked)
  have spl: "split_batches (concurrencyLimit calm_world)
     (enumerate 0 (map cropped [''r1'', ''r2'', ''r3'', ''r4'', ''r5'', ''r6'', ''r7'']))
     = Some three_batches"
    unfolding lim by (rule seven_split)
  have hyp: "concurrencyLimit calm_world = Num 3 \<and> (0::int) < 3 \<and>
    w_readdir calm_world = Some [''img1_photo.png''] \<and>
    find (\<lambda>file. prefix (''img1'' @ ''_'') file) [''img1_photo.png''] = Some ''img1_photo.png'' \<and>
    valid (validateRegions (w_metadata calm_world) seven_regions) \<and>
    cropRegions (w_extract calm_world) seven_regions =
      Inr (map cropped [''r1'', ''r2'', ''r3'', ''r4'', ''r5'', ''r6'', ''r7''])"
    using lim fnd vld crp by (simp add: calm_world_fields)
  from orchestrator_batches_in_sequence
    [where w = calm_world and k = 3 and files = "[''img1_photo.png'']" and imageId = "''img1''"
       and imageFile = "''img1_photo.png''" and regions = seven_regions
       and prs = "map cropped [''r1'', ''r2'', ''r3'', ''r4'', ''r5'', ''r6'', ''r7'']" and ?t0.0 = 0,
     THEN conjunct1, rule_format, OF hyp]
  obtain bs where
    b1: "split_batches (concurrencyLimit calm_world)
           (enumerate 0 (map cropped [''r1'', ''r2'', ''r3'', ''r4'', ''r5'', ''r6'', ''r7''])) = Some bs"
    and b2: "length (run_batches calm_world (0 + w_prepare calm_world) bs) = length bs"
    and b3: "processOCRAsync calm_world ''img1'' seven_regions 0 =
           Some (sort_key fst
                   (main_events (0 + w_prepare calm_world) (run_batches calm_world (0 + w_prepare calm_world) bs) @
                    retry_events (run_batches calm_world (0 + w_prepare calm_world) bs)))"
    by blast
  from b1 spl have bs: "bs = three_batches" by simp
  have p: "0 + w_prepare calm_world = 10" by (simp add: calm_world_fields)
  have len: "length (run_batches calm_world 10 three_batches) = 3"
    using b2 unfolding bs p by (simp add: three_batches_def)
  have evs: "processOCRAsync calm_world ''img1'' seven_regions 0 =
     Some [(110, Push (hello ''r1'')), (110, Push (hello ''r2'')), (110, Push (hello ''r3'')),
           (210, Push (hello ''r4'')), (210, Push (hello ''r5'')), (210, Push (hello ''r6'')),
           (310, Push (hello ''r7'')), (310, Finish completed)]"
    using b3 unfolding bs p seven_events .
  have sizes: "map length three_batches = [3, 3, 1]" by (simp add: three_batches_def)
  have ends: "map (\<lambda>b. fst (br_promise b)) (run_batches calm_world 10 three_batches) = [110, 210, 310]"
    by (simp add: three_batches_def run_batches_Cons calm_cropped promise_all_def)
  from lim fnd vld crp spl sizes len three_runs(1) ends evs
  show ?thesis by (simp add: calm_world_fields)
qed

text \<open>
  C5 as stated fails when the limit is not a positive integer. With
  \<^verbatim>\<open>OCR_CONCURRENCY_LIMIT=abc\<close> the limit is \<^verbatim>\<open>NaN\<close>: the one batch that
  \<^verbatim>\<open>processOCRAsync\<close> makes is empty, so the batches are not the cropped regions, and no
  region is processed. With the limit 0 the splitting loop does not end.
\<close>

theorem nan_limit_batches_counterexample:
  "concurrencyLimit nan_world = NaN \<and>
   cropRegions (w_extract nan_world) one_region = Inr [cropped ''r1''] \<and>
   split_batches (concurrencyLimit nan_world) (enumerate 0 [cropped ''r1'']) = Some [[]] \<and>
   concat [[] :: (nat \<times> ProcessedRegion) list] \<noteq> enumerate 0 [cropped ''r1''] \<and>
   processOCRAsync nan_world ''img1'' one_region 0 = Some [(10, Finish completed)] \<and>
   split_batches (Num 0) (enumerate 0 [cropped ''r1'']) = None"
proof -
  have lim: "concurrencyLimit nan_world = NaN"
    by (simp add: concurrencyLimit_def nan_world_def)
  have crp: "cropRegions (w_extract nan_world) one_region = Inr [cropped ''r1'']"
    by (simp add: nan_world_def calm_world_fields one_region_checked cropped_def)
  have spl: "split_batches (concurrencyLimit nan_world) (enumerate 0 [cropped ''r1'']) = Some [[]]"
    unfolding lim by (simp add: split_batches_NaN)
  have evs: "processOCRAsync nan_world ''img1'' one_region 0 = Some [(10, Finish completed)]"
    by (simp add: processOCRAsync_def nan_world_def calm_world_fields concurrencyLimit_def
          one_region_checked split_batches_NaN run_batches_Cons promise_all_def retry_events_def
          Let_def)
  have zero: "split_batches (Num 0) (enumerate 0 [cropped ''r1'']) = None"
    by (rule split_batches_nonpos) simp_all
  from lim crp spl evs zero show ?thesis by simp
qed


section \<open>The timeout around the retries\<close>

text \<open>
  The time a run of the retry loop takes is the time of its calls and of its sleeps
  together.
\<close>

lemma retryLoop_settled:
  "run_settled (retryLoop fn config attempt now le) =
     now + sum_list (map (\<lambda>k. att_duration (fn k))
                         [attempt..attempt + int (run_calls (retryLoop fn config attempt now le)) - 1])
         + sum_list (map nat (run_sleeps (retryLoop fn config attempt now le)))"
proof (induction fn config attempt now le rule: retryLoop.induct)
  case (1 fn config attempt now lastError)
  show ?case
  proof (cases "attempt \<le> maxAttempts config")
    case False
    then show ?thesis by (simp add: retryLoop.simps [of fn config attempt])
  next
    case le: True
    show ?thesis
    proof (cases "att_outcome (fn attempt)")
      case (Inr v)
      with le show ?thesis by (simp add: retryLoop.simps [of fn config attempt])
    next
      case (Inl error)
      show ?thesis
      proof (cases "attempt \<ge> maxAttempts config \<or> \<not> isRetryableError error config")
        case True
        with le Inl show ?thesis by (auto simp: retryLoop.simps [of fn config attempt])
      next
        case False
        let ?r = "retryLoop fn config (attempt + 1)
                    (now + att_duration (fn attempt) + nat (calculateBackoffDelay attempt config)) error"
        have unf: "retryLoop fn config attempt now lastError =
            ?r \<lparr> run_calls := run_calls ?r + 1,
                 run_sleeps := calculateBackoffDelay attempt config # run_sleeps ?r,
                 run_retries := (now + att_duration (fn attempt), attempt, error) # run_retries ?r \<rparr>"
          using False Inl retryLoop_fail_retry [of attempt config fn error now lastError]
          by (simp add: Let_def)
        have up: "[attempt..attempt + int (run_calls ?r)] =
            attempt # [attempt + 1..attempt + int (run_calls ?r)]"
          by (rule upto_rec1) simp
        from "1.IH" [OF le Inl False refl refl]
        show ?thesis by (simp add: unf up)
      qed
    qed
  qed
qed

lemma region_timeout_result:
  assumes "w_timeout w < run_settled (retryWithBackoff (\<lambda>k. GeminiService_processOCR (w_timeout w) (w_vision w i k)) DEFAULT_RETRY_CONFIG)"
  shows "rr_promise (processRegion w s (i, pr)) =
     (s + w_optimize w i + w_timeout w,
      Inr \<lparr> res_regionId = pr_regionId pr, res_text = [],
            res_processingTime = w_optimize w i + w_timeout w,
            res_error = Some \<lparr> re_code = ''TIMEOUT'', re_message = ''OCR processing timed out'',
                                re_retryable = False \<rparr> \<rparr>)"
  using assms
  by (simp add: processRegion_def withTimeout_cases run_promise_def region_result_def
        or_default_def Let_def)

text \<open>
  C7. When the timer expires before the wrapped promise settles, \<^verbatim>\<open>withTimeout\<close>
  rejects at that moment with the error whose code is \<^verbatim>\<open>TIMEOUT\<close> and whose
  \<^verbatim>\<open>retryable\<close> is \<^verbatim>\<open>true\<close>; otherwise it settles as the promise does.
  \<^verbatim>\<open>processRegion\<close> wraps the whole run of \<^verbatim>\<open>retryWithBackoff\<close> around the vision call
  in one \<^verbatim>\<open>withTimeout\<close>: after the image is optimized the region settles within the
  timeout, whatever the calls do; the time of the run which the deadline is compared
  with is the time of all its calls and all its sleeps together; and when that total
  exceeds the timeout the region gets the timeout error, also when every single call
  is shorter than the timeout.
\<close>

theorem timeout_bounds_whole_retry:
  "(ms < fst p \<longrightarrow>
      withTimeout p ms msg =
        (ms, Inl (Thrown \<lparr> err_code = Some ''TIMEOUT'',
                           err_message = Some (case msg of None \<Rightarrow> ''Operation timed out'' | Some m \<Rightarrow> m),
                           err_retryable = JBool True \<rparr>))) \<and>
   (fst p \<le> ms \<longrightarrow> withTimeout p ms msg = p) \<and>
   rr_promise (processRegion w s (i, pr)) =
     (s + w_optimize w i +
        fst (withTimeout
               (run_promise (retryWithBackoff (\<lambda>k. GeminiService_processOCR (w_timeout w) (w_vision w i k))
                               DEFAULT_RETRY_CONFIG))
               (w_timeout w) (Some ''OCR processing timed out'')),
      region_result (pr_regionId pr)
        (w_optimize w i +
           fst (withTimeout
                  (run_promise (retryWithBackoff (\<lambda>k. GeminiService_processOCR (w_timeout w) (w_vision w i k))
                                  DEFAULT_RETRY_CONFIG))
                  (w_timeout w) (Some ''OCR processing timed out'')))
        (snd (withTimeout
                (run_promise (retryWithBackoff (\<lambda>k. GeminiService_processOCR (w_timeout w) (w_vision w i k))
                                DEFAULT_RETRY_CONFIG))
                (w_timeout w) (Some ''OCR processing timed out'')))) \<and>
   fst (rr_promise (processRegion w s (i, pr))) \<le> s + w_optimize w i + w_timeout w \<and>
   run_settled (retryWithBackoff fn config) =
     sum_list (map (\<lambda>k. att_duration (fn k)) [1..int (run_calls (retryWithBackoff fn config))])
       + sum_list (map nat (run_sleeps (retryWithBackoff fn config))) \<and>
   (w_timeout w < run_settled (retryWithBackoff (\<lambda>k. GeminiService_processOCR (w_timeout w) (w_vision w i k))
                                 DEFAULT_RETRY_CONFIG) \<longrightarrow>
      rr_promise (processRegion w s (i, pr)) =
        (s + w_optimize w i + w_timeout w,
         Inr \<lparr> res_regionId = pr_regionId pr, res_text = [],
               res_processingTime = w_optimize w i + w_timeout w,
               res_error = Some \<lparr> re_code = ''TIMEOUT'', re_message = ''OCR processing timed out'',
                                   re_retryable = False \<rparr> \<rparr>))"
proof (intro conjI impI)
  show "withTimeout p ms msg =
        (ms, Inl (Thrown \<lparr> err_code = Some ''TIMEOUT'',
                           err_message = Some (case msg of None \<Rightarrow> ''Operation timed out'' | Some m \<Rightarrow> m),
                           err_retryable = JBool True \<rparr>))" if "ms < fst p"
    using that by (simp add: withTimeout_cases)
  show "withTimeout p ms msg = p" if "fst p \<le> ms"
    using that by (simp add: withTimeout_cases)
  show "rr_promise (processRegion w s (i, pr)) =
     (s + w_optimize w i +
        fst (withTimeout
               (run_promise (retryWithBackoff (\<lambda>k. GeminiService_processOCR (w_timeout w) (w_vision w i k))
                               DEFAULT_RETRY_CONFIG))
               (w_timeout w) (Some ''OCR processing timed out'')),
      region_result (pr_regionId pr)
        (w_optimize w i +
           fst (withTimeout
                  (run_promise (retryWithBackoff (\<lambda>k. GeminiService_processOCR (w_timeout w) (w_vision w i k))
                                  DEFAULT_RETRY_CONFIG))
                  (w_timeout w) (Some ''OCR processing timed out'')))
        (snd (withTimeout
                (run_promise (retryWithBackoff (\<lambda>k. GeminiService_processOCR (w_timeout w) (w_vision w i k))
                                DEFAULT_RETRY_CONFIG))
                (w_timeout w) (Some ''OCR processing timed out''))))"
    by (simp add: processRegion_def Let_def)
  show "fst (rr_promise (processRegion w s (i, pr))) \<le> s + w_optimize w i + w_timeout w"
    by (simp add: processRegion_def Let_def withTimeout_cases)
  show "run_settled (retryWithBackoff fn config) =
     sum_list (map (\<lambda>k. att_duration (fn k)) [1..int (run_calls (retryWithBackoff fn config))])
       + sum_list (map nat (run_sleeps (retryWithBackoff fn config)))"
    using retryLoop_settled [of fn config 1 0 Falsy] by (simp add: retryWithBackoff_def)
  show "rr_promise (processRegion w s (i, pr)) =
        (s + w_optimize w i + w_timeout w,
         Inr \<lparr> res_regionId = pr_regionId pr, res_text = [],
               res_processingTime = w_optimize w i + w_timeout w,
               res_error = Some \<lparr> re_code = ''TIMEOUT'', re_message = ''OCR processing timed out'',
                                   re_retryable = False \<rparr> \<rparr>)"
    if "w_timeout w < run_settled (retryWithBackoff (\<lambda>k. GeminiService_processOCR (w_timeout w) (w_vision w i k))
                                 DEFAULT_RETRY_CONFIG)"
    using that by (rule region_timeout_result)
qed

lemma unavailable_retryable:
  "isRetryableError (Thrown (processOCR_catch sdk_unavailable)) DEFAULT_RETRY_CONFIG"
  by (simp add: processOCR_catch_def sdk_unavailable_def isRetryableError_def gemini_retryableErrors_def)

text \<open>
  In the busy world each call takes 12 seconds, the run 12 + 2 + 12 + 4 + 12 = 42
  seconds, and the region started at 10 ms times out at 30010 ms.
\<close>

lemma busy_run:
  "retryWithBackoff (\<lambda>k. GeminiService_processOCR (w_timeout busy_world) (w_vision busy_world i k)) DEFAULT_RETRY_CONFIG =
     \<lparr> run_result = Inl (Thrown (processOCR_catch sdk_unavailable)), run_settled = 42000,
       run_calls = 3, run_sleeps = [2000, 4000],
       run_retries = [(12000, 1, Thrown (processOCR_catch sdk_unavailable)),
                      (26000, 2, Thrown (processOCR_catch sdk_unavailable))] \<rparr>"
  by (simp add: retryWithBackoff_default busy_world_def calm_world_def
        GeminiService_processOCR_def race_def unavailable_retryable)

theorem timeout_bounds_whole_retry_witness:
  "(30000::nat) < fst (42000::nat, Inr ''late'' :: thrown + string) \<and>
   withTimeout (42000, Inr ''late'') 30000 None =
     (30000, Inl (Thrown \<lparr> err_code = Some ''TIMEOUT'', err_message = Some ''Operation timed out'',
                            err_retryable = JBool True \<rparr>)) \<and>
   fst (100::nat, Inr ''soon'' :: thrown + string) \<le> 30000 \<and>
   withTimeout (100, Inr ''soon'') 30000 None = (100, Inr ''soon'') \<and>
   (\<forall>k. att_duration (GeminiService_processOCR (w_timeout busy_world) (w_vision busy_world 0 k)) < w_timeout busy_world) \<and>
   w_timeout busy_world
     < run_settled (retryWithBackoff (\<lambda>k. GeminiService_processOCR (w_timeout busy_world) (w_vision busy_world 0 k))
                      DEFAULT_RETRY_CONFIG) \<and>
   rr_promise (processRegion busy_world 10 (0, cropped ''r1'')) =
     (30010, Inr \<lparr> res_regionId = ''r1'', res_text = [], res_processingTime = 30000,
                   res_error = Some \<lparr> re_code = ''TIMEOUT'', re_message = ''OCR processing timed out'',
                                       re_retryable = False \<rparr> \<rparr>)"
proof -
  have f: "w_timeout busy_world = 30000" "w_optimize busy_world 0 = 0"
    "\<forall>k. att_duration (GeminiService_processOCR (w_timeout busy_world) (w_vision busy_world 0 k)) = 12000"
    by (simp_all add: busy_world_def calm_world_def GeminiService_processOCR_def race_def)
  have c: "pr_regionId (cropped ''r1'') = ''r1''" by (simp add: cropped_def)
  from timeout_bounds_whole_retry [of 30000 "(42000, Inr ''late'')" None busy_world 10 0 "cropped ''r1''"
      "\<lambda>k. GeminiService_processOCR (w_timeout busy_world) (w_vision busy_world 0 k)" DEFAULT_RETRY_CONFIG]
    timeout_bounds_whole_retry [of 30000 "(100, Inr ''soon'')" None busy_world 10 0 "cropped ''r1''"
      "\<lambda>k. GeminiService_processOCR (w_timeout busy_world) (w_vision busy_world 0 k)" DEFAULT_RETRY_CONFIG]
    f c busy_run [of 0]
  show ?thesis by (simp add: withTimeout_cases run_promise_def)
qed


section \<open>Errors of a region\<close>

text \<open>
  What the \<^verbatim>\<open>catch\<close> block of \<^verbatim>\<open>processRegion\<close> makes of a thrown object: the code and
  the message are the error's, with defaults, and \<^verbatim>\<open>retryable\<close> is the constant
  \<^verbatim>\<open>false\<close>.
\<close>

lemma region_result_error:
  "region_result regionId elapsed (Inl (Thrown err)) =
     Inr \<lparr> res_regionId = regionId, res_text = [], res_processingTime = elapsed,
           res_error = Some \<lparr> re_code = (case err_code err of None \<Rightarrow> ''PROCESSING_ERROR''
                                            | Some c \<Rightarrow> if c = [] then ''PROCESSING_ERROR'' else c),
                               re_message = (case err_message err of None \<Rightarrow> ''Failed to process region''
                                            | Some m \<Rightarrow> if m = [] then ''Failed to process region'' else m),
                               re_retryable = False \<rparr> \<rparr>"
  by (simp add: region_result_def or_default_def)

lemma region_error_never_retryable:
  "snd (rr_promise (processRegion w s ip)) = Inr r \<Longrightarrow> res_error r = Some e \<Longrightarrow> \<not> re_retryable e"
proof -
  assume a: "snd (rr_promise (processRegion w s ip)) = Inr r" "res_error r = Some e"
  let ?p = "withTimeout (run_promise (retryWithBackoff (\<lambda>k. GeminiService_processOCR (w_timeout w) (w_vision w (fst ip) k))
      DEFAULT_RETRY_CONFIG)) (w_timeout w) (Some ''OCR processing timed out'')"
  from a show ?thesis
    by (cases "snd ?p")
       (auto simp: processRegion_def Let_def region_result_def split: thrown.splits)
qed

text \<open>
  In the slow world the library needs 40 seconds, so the service's own timer ends the
  call after 30 seconds with an error that is not retryable; that is the error the
  region gets.
\<close>

lemma request_timeout_30000:
  "processOCR_catch (request_timeout 30000) =
     \<lparr> err_code = Some ''GEMINI_ERROR'', err_message = Some ''Request timeout after 30000ms'',
       err_retryable = JBool False \<rparr>"
  by (simp add: processOCR_catch_def request_timeout_def number_text_def decimal.simps digit_def
        or_default_def gemini_retryableErrors_def)

lemma slow_run:
  "retryWithBackoff (\<lambda>k. GeminiService_processOCR (w_timeout slow_world) (w_vision slow_world i k))
     DEFAULT_RETRY_CONFIG =
     \<lparr> run_result = Inl (Thrown (processOCR_catch (request_timeout 30000))), run_settled = 30000,
       run_calls = 1, run_sleeps = [], run_retries = [] \<rparr>"
proof -
  have "\<not> isRetryableError (Thrown (processOCR_catch (request_timeout 30000))) DEFAULT_RETRY_CONFIG"
    by (simp add: request_timeout_30000 isRetryableError_def)
  then show ?thesis
    by (simp add: retryWithBackoff_default slow_world_def calm_world_def GeminiService_processOCR_def
          race_def)
qed

lemma slow_region:
  "rr_promise (processRegion slow_world 10 (0, cropped ''r1'')) =
     (30010, Inr \<lparr> res_regionId = ''r1'', res_text = [], res_processingTime = 30000,
                   res_error = Some \<lparr> re_code = ''GEMINI_ERROR'',
                                       re_message = ''Request timeout after 30000ms'',
                                       re_retryable = False \<rparr> \<rparr>)"
proof -
  have f: "w_timeout slow_world = 30000" "w_optimize slow_world 0 = 0"
    by (simp_all add: slow_world_def calm_world_def)
  have r: "retryWithBackoff (\<lambda>k. GeminiService_processOCR 30000 (w_vision slow_world 0 k))
     DEFAULT_RETRY_CONFIG =
     \<lparr> run_result = Inl (Thrown (processOCR_catch (request_timeout 30000))), run_settled = 30000,
       run_calls = 1, run_sleeps = [], run_retries = [] \<rparr>"
    using slow_run [of 0] by (simp add: f)
  show ?thesis
    by (simp add: processRegion_def f r withTimeout_cases run_promise_def region_result_def
          request_timeout_30000 or_default_def cropped_def Let_def)
qed

text \<open>
  C2, at a failing input. In the busy world every call fails after 12 seconds with a
  retryable error, and the timer of \<^verbatim>\<open>withTimeout\<close> expires at 30 seconds, before the
  third call has ended: the awaited promise rejects with the timeout error, whose
  \<^verbatim>\<open>retryable\<close> is \<^verbatim>\<open>true\<close>, and the result that \<^verbatim>\<open>processRegion\<close> returns has the
  error's code and message but \<^verbatim>\<open>retryable: false\<close>.
\<close>

theorem timeout_result_loses_retryable:
  "withTimeout
     (run_promise (retryWithBackoff
        (\<lambda>k. GeminiService_processOCR (w_timeout busy_world) (w_vision busy_world 0 k))
        DEFAULT_RETRY_CONFIG))
     (w_timeout busy_world) (Some ''OCR processing timed out'')
     = (30000, Inl (Thrown \<lparr> err_code = Some ''TIMEOUT'',
                              err_message = Some ''OCR processing timed out'',
                              err_retryable = JBool True \<rparr>)) \<and>
   rr_promise (processRegion busy_world 10 (0, cropped ''r1'')) =
     (30010, Inr \<lparr> res_regionId = ''r1'', res_text = [], res_processingTime = 30000,
                   res_error = Some \<lparr> re_code = ''TIMEOUT'', re_message = ''OCR processing timed out'',
                                       re_retryable = False \<rparr> \<rparr>)"
proof -
  have f: "w_timeout busy_world = 30000" "w_optimize busy_world 0 = 0"
    by (simp_all add: busy_world_def calm_world_def)
  have r: "retryWithBackoff (\<lambda>k. GeminiService_processOCR 30000 (w_vision busy_world 0 k))
     DEFAULT_RETRY_CONFIG =
     \<lparr> run_result = Inl (Thrown (processOCR_catch sdk_unavailable)), run_settled = 42000,
       run_calls = 3, run_sleeps = [2000, 4000],
       run_retries = [(12000, 1, Thrown (processOCR_catch sdk_unavailable)),
                      (26000, 2, Thrown (processOCR_catch sdk_unavailable))] \<rparr>"
    using busy_run [of 0] by (simp add: f)
  show ?thesis
    by (simp add: processRegion_def r f withTimeout_cases run_promise_def region_result_def
          or_default_def cropped_def Let_def)
qed

section \<open>The status of a completed session\<close>

text \<open>
  \<^verbatim>\<open>getOCRStatus\<close> only reads the store, and for a session with \<^verbatim>\<open>completedAt\<close> set the
  answer does not depend on the time of the call: the processing time is
  \<^verbatim>\<open>completedAt - createdAt\<close>.
\<close>

lemma getOCRStatus_completed:
  "sessions sessionId = Some session \<Longrightarrow> ses_completedAt session = Some c \<Longrightarrow>
   getOCRStatus sessions sessionId now =
     Inr \<lparr> rsp_sessionId = ses_id session, rsp_results = ses_results session,
           rsp_processingTime = int c - int (ses_createdAt session),
           rsp_success = (ses_status session = completed), rsp_status = ses_status session,
           rsp_current = length (ses_results session), rsp_total = length (ses_regions session) \<rparr>"
  by (simp add: getOCRStatus_def)

lemma late_run:
  "retryWithBackoff (\<lambda>k. GeminiService_processOCR (w_timeout late_retry_world) (w_vision late_retry_world i k)) DEFAULT_RETRY_CONFIG =
     \<lparr> run_result = Inr ''hello'', run_settled = 35600, run_calls = 3, run_sleeps = [2000, 4000],
       run_retries = [(29000, 1, Thrown (processOCR_catch sdk_unavailable)),
                      (31500, 2, Thrown (processOCR_catch sdk_unavailable))] \<rparr>"
  by (simp add: retryWithBackoff_default late_retry_world_def calm_world_def
        GeminiService_processOCR_def race_def unavailable_retryable)

lemma late_region:
  "processRegion late_retry_world 10 (i, \<lparr> pr_regionId = ''r1'', pr_imageBuffer = [], pr_mimeType = ''image/png'' \<rparr>) =
     \<lparr> rr_promise = (30010, Inr \<lparr> res_regionId = ''r1'', res_text = [], res_processingTime = 30000,
          res_error = Some \<lparr> re_code = ''TIMEOUT'', re_message = ''OCR processing timed out'',
                              re_retryable = False \<rparr> \<rparr>),
       rr_callbacks = [(29010, ''r1'', 1, Thrown (processOCR_catch sdk_unavailable)),
                      (31510, ''r1'', 2, Thrown (processOCR_catch sdk_unavailable))] \<rparr>"
  by (simp add: processRegion_def late_run withTimeout_cases run_promise_def region_result_def
        or_default_def Let_def)
     (simp add: late_retry_world_def calm_world_def)

text \<open>
  The events of a session with one region in the world of the late retry: the first
  callback finds no result; the timer expires at 30010 ms, the result with the timeout
  error is pushed and the session is completed; the retry loop, which the timeout does
  not stop, calls the backend again, and its second callback runs at 31510 ms.
\<close>

lemma late_timeline:
  "timeline late_retry_world ''img1'' one_region 0 =
     [(29010, Retry ''r1'' 1 (Thrown (processOCR_catch sdk_unavailable))),
      (30010, Push \<lparr> res_regionId = ''r1'', res_text = [], res_processingTime = 30000,
          res_error = Some \<lparr> re_code = ''TIMEOUT'', re_message = ''OCR processing timed out'',
                              re_retryable = False \<rparr> \<rparr>),
      (30010, Finish completed),
      (31510, Retry ''r1'' 2 (Thrown (processOCR_catch sdk_unavailable)))]"
proof -
  have w: "w_readdir late_retry_world = Some [''img1_photo.png'']"
    "w_metadata late_retry_world = Some (Some 100, Some 100)"
    "w_extract late_retry_world = (\<lambda>r. Some [])"
    "concurrencyLimit late_retry_world = Num 3"
    "w_prepare late_retry_world = 10"
    by (simp_all add: late_retry_world_def calm_world_def concurrencyLimit_def)
  have s: "\<And>a :: nat \<times> ProcessedRegion. split_batches (Num 3) [a] = Some [[a]]"
    by (simp add: split_batches_pos chunks.simps)
  show ?thesis
    by (simp add: timeline_def processOCRAsync_def w one_region_checked s run_batches_Cons
          late_region promise_all_def retry_events_def Let_def)
qed

lemma unavailable_message:
  "err_message (processOCR_catch sdk_unavailable) = Some ''503 UNAVAILABLE''"
  by (simp add: processOCR_catch_def sdk_unavailable_def or_default_def)

lemma number_text_two: "number_text 2 = ''2''"
  by (simp add: number_text_def decimal.simps digit_def)

lemma late_session_before:
  "session_at 30010 late_retry_world ''s1'' ''img1'' one_region 0 =
     \<lparr> ses_id = ''s1'', ses_imageId = ''img1'', ses_regions = one_region,
       ses_results = [\<lparr> res_regionId = ''r1'', res_text = [], res_processingTime = 30000,
          res_error = Some \<lparr> re_code = ''TIMEOUT'', re_message = ''OCR processing timed out'',
                              re_retryable = False \<rparr> \<rparr>],
       ses_status = completed, ses_createdAt = 0, ses_completedAt = Some 30010 \<rparr>"
  by (simp add: session_at_def late_timeline new_session_def unavailable_message)

lemma late_session_after:
  "session_at 31510 late_retry_world ''s1'' ''img1'' one_region 0 =
     \<lparr> ses_id = ''s1'', ses_imageId = ''img1'', ses_regions = one_region,
       ses_results = [\<lparr> res_regionId = ''r1'', res_text = [], res_processingTime = 30000,
          res_error = Some \<lparr> re_code = ''TIMEOUT'',
                              re_message = ''Retry attempt 2: 503 UNAVAILABLE'',
                              re_retryable = False \<rparr> \<rparr>],
       ses_status = completed, ses_createdAt = 0, ses_completedAt = Some 30010 \<rparr>"
  by (simp add: session_at_def late_timeline new_session_def unavailable_message number_text_two)

text \<open>
  C9, at a failing input. The session of the late retry is completed at 30010 ms; a call
  of \<^verbatim>\<open>getOCRStatus\<close> after that returns the result with the message of the timeout, a
  call after 31510 ms returns the same result with the message rewritten by the
  \<^verbatim>\<open>onRetry\<close> callback of the abandoned retry loop. Status and processing time are the
  same in both answers.
\<close>

theorem completed_result_rewritten_by_late_retry:
  "getOCRStatus [''s1'' \<mapsto> session_at 30010 late_retry_world ''s1'' ''img1'' one_region 0] ''s1'' 30500 =
     Inr \<lparr> rsp_sessionId = ''s1'',
           rsp_results = [\<lparr> res_regionId = ''r1'', res_text = [], res_processingTime = 30000,
              res_error = Some \<lparr> re_code = ''TIMEOUT'', re_message = ''OCR processing timed out'',
                                  re_retryable = False \<rparr> \<rparr>],
           rsp_processingTime = 30010, rsp_success = True, rsp_status = completed,
           rsp_current = 1, rsp_total = 1 \<rparr> \<and>
   getOCRStatus [''s1'' \<mapsto> session_at 31510 late_retry_world ''s1'' ''img1'' one_region 0] ''s1'' 32000 =
     Inr \<lparr> rsp_sessionId = ''s1'',
           rsp_results = [\<lparr> res_regionId = ''r1'', res_text = [], res_processingTime = 30000,
              res_error = Some \<lparr> re_code = ''TIMEOUT'',
                                  re_message = ''Retry attempt 2: 503 UNAVAILABLE'',
                                  re_retryable = False \<rparr> \<rparr>],
           rsp_processingTime = 30010, rsp_success = True, rsp_status = completed,
           rsp_current = 1, rsp_total = 1 \<rparr>"
  unfolding late_session_before late_session_after
  by (simp add: getOCRStatus_def one_region_length)


end
